theory Spec2Isabelle
  imports Complex_Main "HOL-Library.List_Lexorder" "HOL-Library.Char_ord"
begin

section \<open>The OVSDB cluster controller: data model\<close>

text \<open>
  The controller \<^verbatim>\<open>controllers/ovsdbcluster_controller.go\<close> reconciles one
  \<^verbatim>\<open>OVSDBCluster\<close> object against the \<^verbatim>\<open>OVSDBServer\<close> objects (members) and the
  pods (instances) that carry its label. The API types live in package
  \<^verbatim>\<open>api/v1alpha1\<close> and the condition helpers in package \<^verbatim>\<open>util\<close>; the records
  below hold exactly the fields that \<^verbatim>\<open>Reconcile\<close>, \<^verbatim>\<open>serverShell\<close> and
  \<^verbatim>\<open>serverApply\<close> read or write.
\<close>

text \<open>Errors are values. \<^verbatim>\<open>errors.IsNotFound\<close> recognises \<open>NotFound\<close>; \<open>Wrap\<close> is
  \<^verbatim>\<open>WrapErrorForObject(msg, obj, err)\<close> with the object's name, \<open>ListError\<close> the
  \<^verbatim>\<open>fmt.Errorf("Error listing ... for cluster %s: %w", ...)\<close> of the two list helpers.\<close>

datatype error =
    NotFound
  | StoreError string
  | Wrap string string error
  | ListError string string error

text \<open>The two reasons passed to \<^verbatim>\<open>util.SetFailed\<close>.\<close>

datatype reason = OVSDBClusterBootstrap | OVSDBClusterInconsistent

record OVSDBServerSpec =
  specDBType :: string
  specClusterID :: "string option"
  specClusterName :: string
  specInitPeers :: "string list"
  specStorageSize :: string
  specStorageClass :: "string option"

text \<open>Modelled from the spec: the status of a member as package \<^verbatim>\<open>util\<close> reads it
  (\<^verbatim>\<open>util.IsAvailable\<close>, \<^verbatim>\<open>util.IsFailed\<close> are absent from the sources): the two
  conditions are the booleans the spec's data model gives a Member.\<close>

record OVSDBServerStatus =
  srvAvailable :: bool
  srvFailed :: bool
  srvClusterID :: "string option"
  srvRaftAddress :: "string option"

record OVSDBServer =
  srvName :: string
  srvNamespace :: string
  srvLabels :: "string \<Rightarrow> string option"
  srvSpec :: OVSDBServerSpec
  srvStatus :: OVSDBServerStatus

text \<open>Modelled from the spec: a pod as the controller reads it, its name and the
  readiness that \<^verbatim>\<open>util.IsPodReady\<close> (absent from the sources) reports.\<close>

record Pod =
  podName :: string
  podReady :: bool

record OVSDBClusterSpec =
  clReplicas :: int
  clDBType :: string
  clServerStorageSize :: string
  clServerStorageClass :: "string option"

text \<open>Modelled from the spec: the two conditions of the cluster status as the helpers
  \<^verbatim>\<open>util.SetAvailable\<close>, \<^verbatim>\<open>util.UnsetAvailable\<close>, \<^verbatim>\<open>util.SetFailed\<close> and
  \<^verbatim>\<open>util.UnsetFailed\<close> (absent from the sources) leave them: Available holds or not,
  Failed is unset or carries one reason and one message.\<close>

record OVSDBClusterStatus =
  stClusterID :: "string option"
  stClusterSize :: int
  stClusterQuorum :: int
  stAvailableServers :: int
  stAvailable :: bool
  stFailed :: "(reason \<times> string) option"

record OVSDBCluster =
  clName :: string
  clNamespace :: string
  clSpec :: OVSDBClusterSpec
  clStatus :: OVSDBClusterStatus

definition IsAvailable :: "OVSDBServer \<Rightarrow> bool" where
  "IsAvailable s = srvAvailable (srvStatus s)"

definition IsFailed :: "OVSDBServer \<Rightarrow> bool" where
  "IsFailed s = srvFailed (srvStatus s)"

definition IsPodReady :: "Pod \<Rightarrow> bool" where
  "IsPodReady p = podReady p"

definition SetAvailable :: "OVSDBCluster \<Rightarrow> OVSDBCluster" where
  "SetAvailable c = c\<lparr>clStatus := (clStatus c)\<lparr>stAvailable := True\<rparr>\<rparr>"

definition UnsetAvailable :: "OVSDBCluster \<Rightarrow> OVSDBCluster" where
  "UnsetAvailable c = c\<lparr>clStatus := (clStatus c)\<lparr>stAvailable := False\<rparr>\<rparr>"

definition SetFailed :: "OVSDBCluster \<Rightarrow> reason \<Rightarrow> string \<Rightarrow> OVSDBCluster" where
  "SetFailed c r msg = c\<lparr>clStatus := (clStatus c)\<lparr>stFailed := Some (r, msg)\<rparr>\<rparr>"

definition UnsetFailed :: "OVSDBCluster \<Rightarrow> OVSDBCluster" where
  "UnsetFailed c = c\<lparr>clStatus := (clStatus c)\<lparr>stFailed := None\<rparr>\<rparr>"

section \<open>Formatting\<close>

text \<open>\<^verbatim>\<open>%d\<close> of a non-negative \<^verbatim>\<open>int\<close>: the decimal digits, most significant first.\<close>

definition digitChar :: "nat \<Rightarrow> char" where
  "digitChar d = ''0123456789'' ! d"

function showNat :: "nat \<Rightarrow> string" where
  "showNat n = (if n < 10 then [digitChar n] else showNat (n div 10) @ [digitChar (n mod 10)])"
  by pat_completeness auto
termination
  by (relation "measure (\<lambda>n. n)") auto

declare showNat.simps [simp del]

text \<open>Reading a decimal numeral back, to tell the names of different indices apart.\<close>

definition digitVal :: "char \<Rightarrow> nat" where
  "digitVal ch = of_char ch - 48"

definition readNat :: "string \<Rightarrow> nat" where
  "readNat s = foldl (\<lambda>a ch. 10 * a + digitVal ch) 0 s"

text \<open>\<^verbatim>\<open>strings.Join(xs, sep)\<close>.\<close>

fun joinStrings :: "string \<Rightarrow> string list \<Rightarrow> string" where
  "joinStrings sep [] = []"
| "joinStrings sep [x] = x"
| "joinStrings sep (x # y # ys) = x @ sep @ joinStrings sep (y # ys)"

section \<open>Lookups over the observed lists\<close>

text \<open>The closures \<^verbatim>\<open>findServer\<close> and \<^verbatim>\<open>findPod\<close> of \<^verbatim>\<open>Reconcile\<close>: a linear scan
  that returns the first element of that name, \<open>None\<close> for \<^verbatim>\<open>nil\<close>.\<close>

fun findServer :: "OVSDBServer list \<Rightarrow> string \<Rightarrow> OVSDBServer option" where
  "findServer [] name = None"
| "findServer (s # ss) name = (if srvName s = name then Some s else findServer ss name)"

fun findPod :: "Pod list \<Rightarrow> string \<Rightarrow> Pod option" where
  "findPod [] name = None"
| "findPod (p # ps) name = (if podName p = name then Some p else findPod ps name)"

section \<open>Naming a new member\<close>

text \<open>\<^verbatim>\<open>fmt.Sprintf("%s-%d", cluster.Name, i)\<close>.\<close>

definition serverNameAt :: "OVSDBCluster \<Rightarrow> nat \<Rightarrow> string" where
  "serverNameAt cluster i = clName cluster @ ''-'' @ showNat i"

text \<open>\<^verbatim>\<open>nextServerName\<close> probes \<^verbatim>\<open>i = 0, 1, ...\<close> with no upper bound and takes the lookup
  as a closure; with a closure that finds every name the loop never returns, which is
  the value \<open>None\<close> here. \<open>nextServerNameFrom\<close> is the loop from index \<open>i\<close>.\<close>

partial_function (option) nextServerNameFrom ::
  "OVSDBCluster \<Rightarrow> (string \<Rightarrow> OVSDBServer option) \<Rightarrow> nat \<Rightarrow> string option" where
  "nextServerNameFrom cluster lookup i =
     (if lookup (serverNameAt cluster i) = None then Some (serverNameAt cluster i)
      else nextServerNameFrom cluster lookup (Suc i))"

declare nextServerNameFrom.simps [code]

definition nextServerName ::
  "OVSDBCluster \<Rightarrow> (string \<Rightarrow> OVSDBServer option) \<Rightarrow> string option" where
  "nextServerName cluster lookup = nextServerNameFrom cluster lookup 0"

section \<open>The store\<close>

text \<open>
  The declarative store is outside the controller. Every call that \<^verbatim>\<open>Reconcile\<close> makes
  to it is answered by a field of \<open>env\<close>; the answer to a writing call may depend on
  the calls already made in the cycle, which are passed along. A call is recorded
  together with its answer.

  \<^item> \<open>CreateOrUpdateServer\<close>: \<^verbatim>\<open>controllerutil.CreateOrUpdate\<close> on a member, with the
    object that \<^verbatim>\<open>serverApply\<close> fills in from the shell (when the store already
    holds an object of that name, \<^verbatim>\<open>CreateOrUpdate\<close> runs \<^verbatim>\<open>serverApply\<close> on the
    stored object instead; \<^verbatim>\<open>serverApply\<close> writes the same fields into either);
  \<^item> \<open>CreateOrDeletePod\<close>: the helper \<^verbatim>\<open>CreateOrDelete\<close> on the pod of a member,
    with the pod found (\<open>None\<close> when the pod is a fresh \<^verbatim>\<open>dbServerShell\<close>) and the
    \<^verbatim>\<open>OperationResult\<close> it returns;
  \<^item> \<open>DeletePod\<close>: \<^verbatim>\<open>r.Delete\<close> on a pod;
  \<^item> \<open>StatusUpdate\<close>: \<^verbatim>\<open>r.Client.Status().Update\<close> of the cluster.
\<close>

datatype call =
    CreateOrUpdateServer OVSDBServer "error option"
  | CreateOrDeletePod "Pod option" OVSDBServer "error + string"
  | DeletePod Pod "error option"
  | StatusUpdate OVSDBCluster "error option"

record env =
  envGet :: "string \<Rightarrow> string \<Rightarrow> error + OVSDBCluster"
  envListServers :: "string \<Rightarrow> string \<Rightarrow> error + OVSDBServer list"
  envListPods :: "string \<Rightarrow> string \<Rightarrow> error + Pod list"
  envCreateOrUpdate :: "call list \<Rightarrow> OVSDBServer \<Rightarrow> error option"
  envCreateOrDelete :: "call list \<Rightarrow> Pod option \<Rightarrow> OVSDBServer \<Rightarrow> error + string"
  envDelete :: "call list \<Rightarrow> Pod \<Rightarrow> error option"
  envStatusUpdate :: "call list \<Rightarrow> OVSDBCluster \<Rightarrow> error option"

text \<open>\<^verbatim>\<open>controllerutil.OperationResultNone\<close>.\<close>

definition OperationResultNone :: string where
  "OperationResultNone = ''unchanged''"

definition OVSDBClusterLabel :: string where
  "OVSDBClusterLabel = ''ovsdb-cluster''"

section \<open>Observation\<close>

text \<open>\<^verbatim>\<open>getServers\<close> and \<^verbatim>\<open>getServerPods\<close>: list by namespace and cluster label, then
  sort by name. Names are unique within a namespace, so the order \<^verbatim>\<open>sort.Slice\<close>
  produces is the one of the stable sort used here.\<close>

definition getServers :: "env \<Rightarrow> OVSDBCluster \<Rightarrow> error + OVSDBServer list" where
  "getServers e cluster =
     (case envListServers e (clNamespace cluster) (clName cluster) of
        Inl err \<Rightarrow> Inl (ListError ''servers'' (clName cluster) err)
      | Inr items \<Rightarrow> Inr (sort_key srvName items))"

definition getServerPods :: "env \<Rightarrow> OVSDBCluster \<Rightarrow> error + Pod list" where
  "getServerPods e cluster =
     (case envListPods e (clNamespace cluster) (clName cluster) of
        Inl err \<Rightarrow> Inl (ListError ''server pods'' (clName cluster) err)
      | Inr items \<Rightarrow> Inr (sort_key podName items))"

section \<open>Availability, quorum and status projection\<close>

text \<open>The two counting loops of \<^verbatim>\<open>Reconcile\<close>.\<close>

fun countAvailable :: "OVSDBServer list \<Rightarrow> int \<Rightarrow> int" where
  "countAvailable [] clusterSize = clusterSize"
| "countAvailable (s # ss) clusterSize =
     countAvailable ss (if IsAvailable s then clusterSize + 1 else clusterSize)"

fun countReady :: "Pod list \<Rightarrow> int \<Rightarrow> int" where
  "countReady [] nAvailable = nAvailable"
| "countReady (p # ps) nAvailable =
     countReady ps (if IsPodReady p then nAvailable + 1 else nAvailable)"

text \<open>\<^verbatim>\<open>int(math.Ceil(float64(clusterSize) / 2))\<close>. The size is a count of list
  elements, far below \<open>2^53\<close>, so the conversion to \<^verbatim>\<open>float64\<close>, the halving and the
  ceiling are exact and the real numbers compute the same value.\<close>

definition quorumOf :: "int \<Rightarrow> int" where
  "quorumOf clusterSize = \<lceil>real_of_int clusterSize / 2\<rceil>"

text \<open>The loop over the failed members. The slice \<^verbatim>\<open>failed\<close> is declared inside the
  loop body, so every iteration starts from the empty slice.\<close>

definition bootstrapMsg :: "string list \<Rightarrow> string" where
  "bootstrapMsg failed =
     ''The following servers have failed to intialize: '' @ joinStrings '', '' failed"

fun failedLoop :: "OVSDBServer list \<Rightarrow> OVSDBCluster \<Rightarrow> OVSDBCluster" where
  "failedLoop [] cluster = cluster"
| "failedLoop (s # ss) cluster =
     (let failed = (if IsFailed s then [] @ [srvName s] else []) in
      failedLoop ss
        (if length failed > 0
         then SetFailed cluster OVSDBClusterBootstrap (bootstrapMsg failed)
         else cluster))"

text \<open>The loop that sets the ClusterID from the members.\<close>

definition inconsistentMsg :: "string \<Rightarrow> string \<Rightarrow> string \<Rightarrow> string" where
  "inconsistentMsg name sid cid =
     ''Server '' @ name @ '' has inconsistent ClusterID '' @ sid @
     ''. Expected ClusterID '' @ cid"

definition clusterIDStep :: "OVSDBCluster \<Rightarrow> OVSDBServer \<Rightarrow> OVSDBCluster" where
  "clusterIDStep cluster server =
     (case stClusterID (clStatus cluster) of
        None \<Rightarrow> cluster\<lparr>clStatus := (clStatus cluster)
                   \<lparr>stClusterID := srvClusterID (srvStatus server)\<rparr>\<rparr>
      | Some cid \<Rightarrow>
          (case srvClusterID (srvStatus server) of
             None \<Rightarrow> cluster
           | Some sid \<Rightarrow>
               if cid \<noteq> sid
               then SetFailed cluster OVSDBClusterInconsistent
                      (inconsistentMsg (srvName server) sid cid)
               else cluster))"

fun clusterIDLoop :: "OVSDBServer list \<Rightarrow> OVSDBCluster \<Rightarrow> OVSDBCluster" where
  "clusterIDLoop [] cluster = cluster"
| "clusterIDLoop (server # rest) cluster = clusterIDLoop rest (clusterIDStep cluster server)"

text \<open>The availability block: counts, quorum, the Available condition and the three
  status fields.\<close>

definition setAvailability :: "OVSDBCluster \<Rightarrow> OVSDBServer list \<Rightarrow> Pod list \<Rightarrow> OVSDBCluster" where
  "setAvailability cluster servers serverPods =
     (let clusterSize = countAvailable servers 0;
          clusterQuorum = quorumOf clusterSize;
          nAvailable = countReady serverPods 0;
          cluster1 = (if nAvailable \<ge> clusterQuorum \<and> nAvailable > 0
                      then SetAvailable cluster else UnsetAvailable cluster)
      in cluster1\<lparr>clStatus := (clStatus cluster1)
           \<lparr>stAvailableServers := nAvailable,
            stClusterSize := clusterSize,
            stClusterQuorum := clusterQuorum\<rparr>\<rparr>)"

text \<open>Everything \<^verbatim>\<open>Reconcile\<close> does to the status between the two lists and the
  \<^verbatim>\<open>statusChanged()\<close> test.\<close>

definition projectStatus :: "OVSDBCluster \<Rightarrow> OVSDBServer list \<Rightarrow> Pod list \<Rightarrow> OVSDBCluster" where
  "projectStatus cluster servers serverPods =
     clusterIDLoop servers (failedLoop servers (setAvailability cluster servers serverPods))"

section \<open>Membership scaling\<close>

definition zeroSpec :: OVSDBServerSpec where
  "zeroSpec = \<lparr>specDBType = [], specClusterID = None, specClusterName = [],
     specInitPeers = [], specStorageSize = [], specStorageClass = None\<rparr>"

definition zeroStatus :: OVSDBServerStatus where
  "zeroStatus = \<lparr>srvAvailable = False, srvFailed = False, srvClusterID = None,
     srvRaftAddress = None\<rparr>"

definition serverShell :: "OVSDBCluster \<Rightarrow> string \<Rightarrow> OVSDBServer" where
  "serverShell cluster name =
     \<lparr>srvName = name, srvNamespace = clNamespace cluster, srvLabels = Map.empty,
      srvSpec = zeroSpec, srvStatus = zeroStatus\<rparr>"

text \<open>The loop of \<^verbatim>\<open>serverApply\<close> that collects the peers, with the slice built so far.\<close>

fun collectPeers :: "OVSDBServer \<Rightarrow> OVSDBServer list \<Rightarrow> string list \<Rightarrow> string list" where
  "collectPeers server [] initPeers = initPeers"
| "collectPeers server (peer # rest) initPeers =
     collectPeers server rest
       (if srvName peer \<noteq> srvName server \<and> srvRaftAddress (srvStatus peer) \<noteq> None
        then initPeers @ [the (srvRaftAddress (srvStatus peer))]
        else initPeers)"

definition serverApply ::
  "OVSDBCluster \<Rightarrow> OVSDBServer \<Rightarrow> OVSDBServer list \<Rightarrow> OVSDBServer" where
  "serverApply cluster server allServers =
     (let initPeers = collectPeers server allServers [] in
      server\<lparr>srvLabels := (srvLabels server)(OVSDBClusterLabel \<mapsto> clName cluster),
             srvSpec := (srvSpec server)
               \<lparr>specDBType := clDBType (clSpec cluster),
                specClusterID := stClusterID (clStatus cluster),
                specClusterName := clName cluster,
                specInitPeers := initPeers,
                specStorageSize := clServerStorageSize (clSpec cluster),
                specStorageClass := clServerStorageClass (clSpec cluster)\<rparr>\<rparr>)"

definition targetServers :: "OVSDBCluster \<Rightarrow> int" where
  "targetServers cluster =
     (let target = clReplicas (clSpec cluster);
          target = (if target = 0 then 1 else target)
      in if stClusterID (clStatus cluster) = None then 1 else target)"

text \<open>The scale-up loop \<^verbatim>\<open>for i := len(servers); i < targetServers; i++\<close>. Each
  iteration names a member against the closure over \<^verbatim>\<open>servers\<close>, builds the object
  and hands it to \<^verbatim>\<open>CreateOrUpdate\<close>; an error returns at once. (The result of
  \<^verbatim>\<open>NeedsUpdate\<close> is discarded by the caller.) The result is \<open>None\<close> when the naming
  loop does not return.\<close>

function scaleLoop ::
  "env \<Rightarrow> OVSDBCluster \<Rightarrow> OVSDBServer list \<Rightarrow> int \<Rightarrow> int \<Rightarrow> call list
   \<Rightarrow> (error option \<times> call list) option" where
  "scaleLoop e cluster servers target i calls =
     (if i < target then
        (case nextServerName cluster (findServer servers) of
           None \<Rightarrow> None
         | Some name \<Rightarrow>
             (let server = serverApply cluster (serverShell cluster name) servers;
                  r = envCreateOrUpdate e calls server
              in case r of
                   Some err \<Rightarrow> Some (Some err, calls @ [CreateOrUpdateServer server r])
                 | None \<Rightarrow>
                     scaleLoop e cluster servers target (i + 1)
                       (calls @ [CreateOrUpdateServer server r])))
      else Some (None, calls))"
  by pat_completeness auto
termination
  by (relation "measure (\<lambda>(e, cluster, servers, target, i, calls). nat (target - i))") auto

declare scaleLoop.simps [simp del]

section \<open>Instance reconciliation\<close>

text \<open>Scale to zero: delete every pod, stop at the first error.\<close>

fun deleteLoop :: "env \<Rightarrow> Pod list \<Rightarrow> call list \<Rightarrow> error option \<times> call list" where
  "deleteLoop e [] calls = (None, calls)"
| "deleteLoop e (serverPod # rest) calls =
     (case envDelete e calls serverPod of
        Some err \<Rightarrow>
          (Some (Wrap ''Delete server pod'' (podName serverPod) err),
           calls @ [DeletePod serverPod (Some err)])
      | None \<Rightarrow> deleteLoop e rest (calls @ [DeletePod serverPod None]))"

text \<open>The per-member loop. Its state is the working count \<^verbatim>\<open>nAvailable\<close> and the calls
  made so far; \<^verbatim>\<open>clusterSize\<close> and \<^verbatim>\<open>clusterQuorum\<close> are the locals computed before.\<close>

fun podLoop ::
  "env \<Rightarrow> Pod list \<Rightarrow> int \<Rightarrow> int \<Rightarrow> OVSDBServer list \<Rightarrow> int \<Rightarrow> call list
   \<Rightarrow> error option \<times> call list \<times> int" where
  "podLoop e serverPods clusterSize clusterQuorum [] nAvailable calls =
     (None, calls, nAvailable)"
| "podLoop e serverPods clusterSize clusterQuorum (server # rest) nAvailable calls =
     (if \<not> IsAvailable server
      then podLoop e serverPods clusterSize clusterQuorum rest nAvailable calls
      else
        (let serverPod = findPod serverPods (srvName server) in
         if serverPod \<noteq> None \<and> clusterSize \<ge> 3 \<and> nAvailable \<le> clusterQuorum
         then podLoop e serverPods clusterSize clusterQuorum rest nAvailable calls
         else
           (case envCreateOrDelete e calls serverPod server of
              Inl err \<Rightarrow>
                (Some (Wrap ''Update server pod'' (srvName server) err),
                 calls @ [CreateOrDeletePod serverPod server (Inl err)], nAvailable)
            | Inr op \<Rightarrow>
                podLoop e serverPods clusterSize clusterQuorum rest
                  (if op \<noteq> OperationResultNone then nAvailable - 1 else nAvailable)
                  (calls @ [CreateOrDeletePod serverPod server (Inr op)]))))"

section \<open>The reconcile cycle\<close>

record result =
  resErr :: "error option"
  resCalls :: "call list"
  resCluster :: "OVSDBCluster option"

text \<open>The body of \<^verbatim>\<open>Reconcile\<close> after the cluster has been fetched: the error returned,
  the calls made and the cluster object as it is in memory at the return.\<close>

definition reconcileBody ::
  "env \<Rightarrow> OVSDBCluster \<Rightarrow> (error option \<times> call list \<times> OVSDBCluster) option" where
  "reconcileBody e fetched =
     (let origStatus = clStatus fetched;
          cluster = UnsetFailed fetched
      in case getServers e cluster of
           Inl err \<Rightarrow> Some (Some err, [], cluster)
         | Inr servers \<Rightarrow>
        (case getServerPods e cluster of
           Inl err \<Rightarrow> Some (Some err, [], cluster)
         | Inr serverPods \<Rightarrow>
        (let clusterSize = countAvailable servers 0;
             clusterQuorum = quorumOf clusterSize;
             nAvailable = countReady serverPods 0;
             cluster = projectStatus cluster servers serverPods
         in if clStatus cluster \<noteq> origStatus then Some (None, [], cluster)
            else
              (case scaleLoop e cluster servers (targetServers cluster)
                      (int (length servers)) [] of
                 None \<Rightarrow> None
               | Some (Some err, calls) \<Rightarrow> Some (Some err, calls, cluster)
               | Some (None, calls) \<Rightarrow>
                   if clReplicas (clSpec cluster) = 0
                   then (case deleteLoop e serverPods calls of
                           (err, calls') \<Rightarrow> Some (err, calls', cluster))
                   else (case podLoop e serverPods clusterSize clusterQuorum servers
                                nAvailable calls of
                           (err, calls', n) \<Rightarrow> Some (err, calls', cluster))))))"

text \<open>The deferred function: save the status when it differs from the snapshot; an
  update error becomes the returned error only when there is none yet.\<close>

definition deferredStatusUpdate ::
  "env \<Rightarrow> OVSDBClusterStatus \<Rightarrow> error option \<times> call list \<times> OVSDBCluster \<Rightarrow> result" where
  "deferredStatusUpdate e origStatus r =
     (case r of (err, calls, cluster) \<Rightarrow>
        if clStatus cluster \<noteq> origStatus then
          (case envStatusUpdate e calls cluster of
             Some updateErr \<Rightarrow>
               \<lparr>resErr = (if err = None
                           then Some (Wrap ''Update Status'' (clName cluster) updateErr)
                           else err),
                resCalls = calls @ [StatusUpdate cluster (Some updateErr)],
                resCluster = Some cluster\<rparr>
           | None \<Rightarrow>
               \<lparr>resErr = err, resCalls = calls @ [StatusUpdate cluster None],
                resCluster = Some cluster\<rparr>)
        else \<lparr>resErr = err, resCalls = calls, resCluster = Some cluster\<rparr>)"

text \<open>\<^verbatim>\<open>Reconcile\<close> for the request \<open>(namespace, name)\<close>. \<open>None\<close>: the cycle does not
  return.\<close>

definition Reconcile :: "env \<Rightarrow> string \<times> string \<Rightarrow> result option" where
  "Reconcile e req =
     (case envGet e (fst req) (snd req) of
        Inl err \<Rightarrow>
          if err = NotFound then Some \<lparr>resErr = None, resCalls = [], resCluster = None\<rparr>
          else Some \<lparr>resErr = Some (Wrap ''Get cluster'' [] err), resCalls = [],
                     resCluster = None\<rparr>
      | Inr fetched \<Rightarrow>
          (case reconcileBody e fetched of
             None \<Rightarrow> None
           | Some r \<Rightarrow> Some (deferredStatusUpdate e (clStatus fetched) r)))"

text \<open>Kinds of calls.\<close>

fun isMemberCall :: "call \<Rightarrow> bool" where
  "isMemberCall (CreateOrUpdateServer s r) = True"
| "isMemberCall c = False"

fun isPodCall :: "call \<Rightarrow> bool" where
  "isPodCall (CreateOrDeletePod p s r) = True"
| "isPodCall (DeletePod p r) = True"
| "isPodCall c = False"

text \<open>A pod call that changed something: \<^verbatim>\<open>op != controllerutil.OperationResultNone\<close>;
  it is a replacement when the pod existed before.\<close>

fun podChanged :: "call \<Rightarrow> bool" where
  "podChanged (CreateOrDeletePod p s (Inr op)) = (op \<noteq> OperationResultNone)"
| "podChanged c = False"

fun podReplaced :: "call \<Rightarrow> bool" where
  "podReplaced (CreateOrDeletePod (Some p) s (Inr op)) = (op \<noteq> OperationResultNone)"
| "podReplaced c = False"

text \<open>The test of the ClusterID loop for a member against the cluster's ClusterID \<open>cid\<close>:
  \<^verbatim>\<open>server.Status.ClusterID != nil && *cluster.Status.ClusterID != *server.Status.ClusterID\<close>.\<close>

definition conflicting :: "string \<Rightarrow> OVSDBServer \<Rightarrow> bool" where
  "conflicting cid server =
     (srvClusterID (srvStatus server) \<noteq> None \<and> cid \<noteq> the (srvClusterID (srvStatus server)))"

section \<open>Concrete scenarios\<close>

text \<open>A cluster \<open>c\<close> in namespace \<open>ns\<close>, its members and pods, and a store that holds
  them and accepts every write: a new pod is reported as created, an existing one as
  updated.\<close>

definition member ::
  "string \<Rightarrow> bool \<Rightarrow> bool \<Rightarrow> string option \<Rightarrow> string option \<Rightarrow> OVSDBServer" where
  "member name avail failed cid raft =
     \<lparr>srvName = name, srvNamespace = ''ns'', srvLabels = Map.empty, srvSpec = zeroSpec,
      srvStatus = \<lparr>srvAvailable = avail, srvFailed = failed, srvClusterID = cid,
                   srvRaftAddress = raft\<rparr>\<rparr>"

definition pod :: "string \<Rightarrow> bool \<Rightarrow> Pod" where
  "pod name ready = \<lparr>podName = name, podReady = ready\<rparr>"

definition freshStatus :: OVSDBClusterStatus where
  "freshStatus = \<lparr>stClusterID = None, stClusterSize = 0, stClusterQuorum = 0,
     stAvailableServers = 0, stAvailable = False, stFailed = None\<rparr>"

definition clusterC :: "int \<Rightarrow> OVSDBClusterStatus \<Rightarrow> OVSDBCluster" where
  "clusterC replicas st =
     \<lparr>clName = ''c'', clNamespace = ''ns'',
      clSpec = \<lparr>clReplicas = replicas, clDBType = ''NB'', clServerStorageSize = ''1G'',
                clServerStorageClass = None\<rparr>,
      clStatus = st\<rparr>"

definition storeOf ::
  "OVSDBCluster \<Rightarrow> error + OVSDBServer list \<Rightarrow> error + Pod list \<Rightarrow> env" where
  "storeOf cluster members instances =
     \<lparr>envGet = (\<lambda>ns n. if ns = clNamespace cluster \<and> n = clName cluster
                        then Inr cluster else Inl NotFound),
      envListServers = (\<lambda>ns l. members),
      envListPods = (\<lambda>ns l. instances),
      envCreateOrUpdate = (\<lambda>calls s. None),
      envCreateOrDelete = (\<lambda>calls p s. Inr (if p = None then ''created'' else ''updated'')),
      envDelete = (\<lambda>calls p. None),
      envStatusUpdate = (\<lambda>calls c. None)\<rparr>"

text \<open>Five bootstrapped members of cluster \<open>x\<close>, each with a pod, four pods ready, and
  the status a previous cycle has saved for them.\<close>

definition fiveMembers :: "OVSDBServer list" where
  "fiveMembers =
     [member ''c-0'' True False (Some ''x'') None, member ''c-1'' True False (Some ''x'') None,
      member ''c-2'' True False (Some ''x'') None, member ''c-3'' True False (Some ''x'') None,
      member ''c-4'' True False (Some ''x'') None]"

definition fivePods :: "Pod list" where
  "fivePods =
     [pod ''c-0'' True, pod ''c-1'' True, pod ''c-2'' True, pod ''c-3'' True, pod ''c-4'' False]"

definition fiveStatus :: OVSDBClusterStatus where
  "fiveStatus = \<lparr>stClusterID = Some ''x'', stClusterSize = 5, stClusterQuorum = 3,
     stAvailableServers = 4, stAvailable = True, stFailed = None\<rparr>"

definition fiveStore :: env where
  "fiveStore = storeOf (clusterC 5 fiveStatus) (Inr fiveMembers) (Inr fivePods)"

text \<open>One bootstrapped member of cluster \<open>x\<close> with a raft address and a ready pod, and the
  status a previous cycle has saved for it.\<close>

definition oneStatus :: OVSDBClusterStatus where
  "oneStatus = \<lparr>stClusterID = Some ''x'', stClusterSize = 1, stClusterQuorum = 1,
     stAvailableServers = 1, stAvailable = True, stFailed = None\<rparr>"

definition firstMember :: OVSDBServer where
  "firstMember = member ''c-0'' True False (Some ''x'') (Some ''tcp:10.0.0.1:6643'')"

definition oneStore :: "int \<Rightarrow> env" where
  "oneStore replicas =
     storeOf (clusterC replicas oneStatus) (Inr [firstMember]) (Inr [pod ''c-0'' True])"

text \<open>Two statuses of a cluster without members: one that still carries the Failed
  condition of a seed member that is gone, with the ClusterID null, and one with a
  ClusterID and nothing else.\<close>

definition staleStatus :: OVSDBClusterStatus where
  "staleStatus = freshStatus\<lparr>stFailed :=
     Some (OVSDBClusterBootstrap, ''The following servers have failed to intialize: c-0'')\<rparr>"

definition seededStatus :: OVSDBClusterStatus where
  "seededStatus = freshStatus\<lparr>stClusterID := Some ''x''\<rparr>"

section \<open>Name synthesis returns the first unused name\<close>

lemma digitVal_digitChar: "d < 10 \<Longrightarrow> digitVal (digitChar d) = d"
proof -
  assume "d < 10"
  then have "d \<in> {0,1,2,3,4,5,6,7,8,9}" by auto
  then show ?thesis by (auto simp: digitVal_def digitChar_def)
qed

lemma readNat_showNat: "readNat (showNat n) = n"
proof (induction n rule: showNat.induct)
  case (1 n)
  show ?case
  proof (cases "n < 10")
    case True
    then show ?thesis by (subst showNat.simps) (simp add: readNat_def digitVal_digitChar)
  next
    case False
    with 1 have "readNat (showNat (n div 10)) = n div 10" by simp
    with False show ?thesis
      by (subst showNat.simps) (simp add: readNat_def digitVal_digitChar)
  qed
qed

lemma showNat_inj: "showNat a = showNat b \<Longrightarrow> a = b"
  by (metis readNat_showNat)

lemma serverNameAt_inj: "serverNameAt c a = serverNameAt c b \<Longrightarrow> a = b"
  by (simp add: serverNameAt_def showNat_inj)

lemma findServer_None: "findServer ss n = None \<longleftrightarrow> n \<notin> srvName ` set ss"
  by (induction ss) auto

lemma free_index_exists:
  "\<exists>k. i \<le> k \<and> k \<le> i + length ss \<and> findServer ss (serverNameAt c k) = None"
proof (rule ccontr)
  assume "\<not> ?thesis"
  then have all: "\<forall>k\<in>{i..i + length ss}. serverNameAt c k \<in> srvName ` set ss"
    by (auto simp: findServer_None)
  have "inj_on (serverNameAt c) {i..i + length ss}"
    by (auto intro!: inj_onI dest: serverNameAt_inj)
  then have "card (serverNameAt c ` {i..i + length ss}) = length ss + 1"
    by (simp add: card_image)
  moreover have "serverNameAt c ` {i..i + length ss} \<subseteq> srvName ` set ss"
    using all by auto
  then have "card (serverNameAt c ` {i..i + length ss}) \<le> card (srvName ` set ss)"
    by (intro card_mono) auto
  moreover have "card (srvName ` set ss) \<le> length ss"
    by (meson card_image_le card_length le_trans List.finite_set)
  ultimately show False by simp
qed

lemma nextServerNameFrom_reaches:
  "i \<le> k \<Longrightarrow> lookup (serverNameAt c k) = None \<Longrightarrow>
   (\<forall>j. i \<le> j \<and> j < k \<longrightarrow> lookup (serverNameAt c j) \<noteq> None) \<Longrightarrow>
   nextServerNameFrom c lookup i = Some (serverNameAt c k)"
proof (induction "k - i" arbitrary: i)
  case 0
  then have "i = k" by simp
  with 0 show ?case by (subst nextServerNameFrom.simps) simp
next
  case (Suc d)
  then have lt: "i < k" by simp
  with Suc.prems have occ: "lookup (serverNameAt c i) \<noteq> None" by simp
  have "nextServerNameFrom c lookup (Suc i) = Some (serverNameAt c k)"
    using Suc.hyps(1)[of "Suc i"] Suc.hyps(2) Suc.prems lt by auto
  with occ show ?case by (subst nextServerNameFrom.simps) auto
qed

lemma nextServerName_first_free:
  "\<exists>k. k \<le> length ss \<and> nextServerName c (findServer ss) = Some (serverNameAt c k) \<and>
       findServer ss (serverNameAt c k) = None \<and>
       (\<forall>j<k. findServer ss (serverNameAt c j) \<noteq> None)"
proof -
  define P where "P k \<longleftrightarrow> findServer ss (serverNameAt c k) = None" for k
  from free_index_exists[of 0 ss c] obtain k0 where k0: "k0 \<le> length ss" "P k0"
    by (auto simp: P_def)
  define k where "k = (LEAST k. P k)"
  have Pk: "P k" unfolding k_def using k0(2) by (rule LeastI)
  have le: "k \<le> k0" unfolding k_def using k0(2) by (rule Least_le)
  have below: "\<forall>j<k. \<not> P j" unfolding k_def using not_less_Least by blast
  have "nextServerNameFrom c (findServer ss) 0 = Some (serverNameAt c k)"
    using Pk below by (intro nextServerNameFrom_reaches) (auto simp: P_def)
  with Pk below le k0(1) show ?thesis
    unfolding nextServerName_def P_def by (intro exI[of _ k]) auto
qed

section \<open>The calls made by the loops\<close>

lemma scaleLoop_calls:
  assumes "nextServerName c (findServer ss) = Some name"
  shows "\<exists>err new. scaleLoop e c ss t i calls = Some (err, calls @ new) \<and>
          (\<forall>x\<in>set new. \<exists>r. x = CreateOrUpdateServer (serverApply c (serverShell c name) ss) r) \<and>
          length new \<le> nat (t - i) \<and> (err = None \<longrightarrow> length new = nat (t - i)) \<and>
          (i < t \<longrightarrow> new \<noteq> [])"
  using assms
proof (induction e c ss t i calls rule: scaleLoop.induct)
  case (1 e c ss t i calls)
  let ?server = "serverApply c (serverShell c name) ss"
  show ?case
  proof (cases "i < t")
    case False
    then show ?thesis by (subst scaleLoop.simps) simp
  next
    case True
    show ?thesis
    proof (cases "envCreateOrUpdate e calls ?server")
      case (Some err)
      with True 1(2) show ?thesis
        by (subst scaleLoop.simps) (simp add: Let_def)
    next
      case None
      from 1(1)[OF True 1(2) refl refl None 1(2)]
      obtain err new where
        run: "scaleLoop e c ss t (i + 1) (calls @ [CreateOrUpdateServer ?server None]) =
                Some (err, (calls @ [CreateOrUpdateServer ?server None]) @ new)"
        and all: "\<forall>x\<in>set new. \<exists>r. x = CreateOrUpdateServer ?server r"
        and len: "length new \<le> nat (t - (i + 1))"
        and full: "err = None \<longrightarrow> length new = nat (t - (i + 1))"
        using None by auto
      have "scaleLoop e c ss t i calls =
              Some (err, calls @ (CreateOrUpdateServer ?server None # new))"
        using True 1(2) None run by (subst scaleLoop.simps) (simp add: Let_def)
      moreover have "length (CreateOrUpdateServer ?server None # new) \<le> nat (t - i)"
        using len True by simp
      moreover have "err = None \<longrightarrow> length (CreateOrUpdateServer ?server None # new) = nat (t - i)"
        using full True by auto
      ultimately show ?thesis using all by (intro exI[of _ err] exI[of _ "CreateOrUpdateServer ?server None # new"]) auto
    qed
  qed
qed

lemma deleteLoop_calls:
  "\<exists>err new. deleteLoop e ps calls = (err, calls @ new) \<and>
      (\<forall>x\<in>set new. \<exists>p r. x = DeletePod p r)"
proof (induction ps arbitrary: calls)
  case Nil
  then show ?case by simp
next
  case (Cons p ps)
  show ?case
  proof (cases "envDelete e calls p")
    case None
    from Cons[of "calls @ [DeletePod p None]"] obtain err new where
      "deleteLoop e ps (calls @ [DeletePod p None]) = (err, (calls @ [DeletePod p None]) @ new)"
      "\<forall>x\<in>set new. \<exists>p r. x = DeletePod p r" by blast
    with None show ?thesis
      by (intro exI[of _ err] exI[of _ "DeletePod p None # new"]) auto
  next
    case (Some err)
    then show ?thesis by simp
  qed
qed

text \<open>The three ways through one iteration of the per-member loop.\<close>

lemma podLoop_skip:
  "\<not> IsAvailable s \<or> (findPod pods (srvName s) \<noteq> None \<and> cs \<ge> 3 \<and> nA \<le> q) \<Longrightarrow>
   podLoop e pods cs q (s # ss) nA calls = podLoop e pods cs q ss nA calls"
  by (auto simp: Let_def)

lemma podLoop_fail:
  "IsAvailable s \<Longrightarrow> \<not> (findPod pods (srvName s) \<noteq> None \<and> cs \<ge> 3 \<and> nA \<le> q) \<Longrightarrow>
   envCreateOrDelete e calls (findPod pods (srvName s)) s = Inl err \<Longrightarrow>
   podLoop e pods cs q (s # ss) nA calls =
     (Some (Wrap ''Update server pod'' (srvName s) err),
      calls @ [CreateOrDeletePod (findPod pods (srvName s)) s (Inl err)], nA)"
  by (auto simp: Let_def)

lemma podLoop_ok:
  "IsAvailable s \<Longrightarrow> \<not> (findPod pods (srvName s) \<noteq> None \<and> cs \<ge> 3 \<and> nA \<le> q) \<Longrightarrow>
   envCreateOrDelete e calls (findPod pods (srvName s)) s = Inr op \<Longrightarrow>
   podLoop e pods cs q (s # ss) nA calls =
     podLoop e pods cs q ss (if op \<noteq> OperationResultNone then nA - 1 else nA)
       (calls @ [CreateOrDeletePod (findPod pods (srvName s)) s (Inr op)])"
  by (auto simp: Let_def)

lemma podLoop_calls:
  "\<exists>err new n. podLoop e pods cs q ss nA calls = (err, calls @ new, n) \<and>
      (\<forall>x\<in>set new. \<exists>p s r. x = CreateOrDeletePod p s r) \<and>
      n = nA - int (length (filter podChanged new))"
proof (induction ss arbitrary: nA calls)
  case Nil
  then show ?case by simp
next
  case (Cons s ss)
  let ?pod = "findPod pods (srvName s)"
  let ?skip = "\<not> IsAvailable s \<or> (?pod \<noteq> None \<and> cs \<ge> 3 \<and> nA \<le> q)"
  show ?case
  proof (cases ?skip)
    case True
    from podLoop_skip[OF True] Cons[of nA calls] show ?thesis by simp
  next
    case False
    then have av: "IsAvailable s" and go: "\<not> (?pod \<noteq> None \<and> cs \<ge> 3 \<and> nA \<le> q)" by auto
    show ?thesis
    proof (cases "envCreateOrDelete e calls ?pod s")
      case (Inl err)
      from podLoop_fail[OF av go Inl] show ?thesis by simp
    next
      case (Inr op)
      let ?c = "CreateOrDeletePod ?pod s (Inr op)"
      let ?n = "if op \<noteq> OperationResultNone then nA - 1 else nA"
      note step = podLoop_ok[OF av go Inr, of ss]
      from Cons[of ?n "calls @ [?c]"] obtain err new n where
        "podLoop e pods cs q ss ?n (calls @ [?c]) = (err, (calls @ [?c]) @ new, n)"
        "\<forall>x\<in>set new. \<exists>p s r. x = CreateOrDeletePod p s r"
        "n = ?n - int (length (filter podChanged new))" by blast
      with step show ?thesis
        by (intro exI[of _ err] exI[of _ "?c # new"] exI[of _ n]) auto
    qed
  qed
qed

lemma podLoop_blocked:
  assumes "cs \<ge> 3" "nA \<le> q" "podLoop e pods cs q ss nA calls = (err, calls @ new, n)"
  shows "filter podReplaced new = []"
  using assms
proof (induction ss arbitrary: nA calls new err n)
  case Nil
  then show ?case by simp
next
  case (Cons s ss)
  let ?pod = "findPod pods (srvName s)"
  let ?skip = "\<not> IsAvailable s \<or> (?pod \<noteq> None \<and> cs \<ge> 3 \<and> nA \<le> q)"
  show ?case
  proof (cases ?skip)
    case True
    from podLoop_skip[OF True] Cons show ?thesis by simp
  next
    case False
    then have av: "IsAvailable s" and go: "\<not> (?pod \<noteq> None \<and> cs \<ge> 3 \<and> nA \<le> q)" by auto
    with Cons.prems(1,2) have none: "?pod = None" by auto
    show ?thesis
    proof (cases "envCreateOrDelete e calls ?pod s")
      case (Inl err)
      from podLoop_fail[OF av go Inl, of ss] Cons.prems(3) none show ?thesis by auto
    next
      case (Inr op)
      let ?c = "CreateOrDeletePod ?pod s (Inr op)"
      let ?n = "if op \<noteq> OperationResultNone then nA - 1 else nA"
      note step = podLoop_ok[OF av go Inr, of ss]
      from podLoop_calls[of e pods cs q ss ?n "calls @ [?c]"] obtain err' new' n' where
        run: "podLoop e pods cs q ss ?n (calls @ [?c]) = (err', (calls @ [?c]) @ new', n')" by blast
      with step Cons.prems(3) have new: "new = ?c # new'" by simp
      have "?n \<le> q" using Cons.prems(2) by simp
      from Cons.IH[OF Cons.prems(1) this run] have "filter podReplaced new' = []" .
      with new none show ?thesis by simp
    qed
  qed
qed

lemma podLoop_one_replacement:
  assumes "cs \<ge> 3" "nA \<le> q + 1" "podLoop e pods cs q ss nA calls = (err, calls @ new, n)"
  shows "length (filter podReplaced new) \<le> 1"
  using assms
proof (induction ss arbitrary: nA calls new err n)
  case Nil
  then show ?case by simp
next
  case (Cons s ss)
  let ?pod = "findPod pods (srvName s)"
  let ?skip = "\<not> IsAvailable s \<or> (?pod \<noteq> None \<and> cs \<ge> 3 \<and> nA \<le> q)"
  show ?case
  proof (cases ?skip)
    case True
    from podLoop_skip[OF True] Cons show ?thesis by simp
  next
    case False
    then have av: "IsAvailable s" and go: "\<not> (?pod \<noteq> None \<and> cs \<ge> 3 \<and> nA \<le> q)" by auto
    show ?thesis
    proof (cases "envCreateOrDelete e calls ?pod s")
      case (Inl err)
      from podLoop_fail[OF av go Inl, of ss] Cons.prems(3) show ?thesis by (cases ?pod) auto
    next
      case (Inr op)
      let ?c = "CreateOrDeletePod ?pod s (Inr op)"
      let ?n = "if op \<noteq> OperationResultNone then nA - 1 else nA"
      note step = podLoop_ok[OF av go Inr, of ss]
      from podLoop_calls[of e pods cs q ss ?n "calls @ [?c]"] obtain err' new' n' where
        run: "podLoop e pods cs q ss ?n (calls @ [?c]) = (err', (calls @ [?c]) @ new', n')" by blast
      with step Cons.prems(3) have new: "new = ?c # new'" by simp
      show ?thesis
      proof (cases "podReplaced ?c")
        case True
        then have "op \<noteq> OperationResultNone" by (cases ?pod) auto
        then have "?n \<le> q" using Cons.prems(2) by simp
        from podLoop_blocked[OF Cons.prems(1) this run] have "filter podReplaced new' = []" .
        with new True show ?thesis by simp
      next
        case False
        have "?n \<le> q + 1" using Cons.prems(2) by simp
        from Cons.IH[OF Cons.prems(1) this run] have "length (filter podReplaced new') \<le> 1" .
        with new False show ?thesis by simp
      qed
    qed
  qed
qed

section \<open>What the status projection computes\<close>

lemma countAvailable_eq:
  "countAvailable ss k = k + int (length (filter IsAvailable ss))"
  by (induction ss arbitrary: k) auto

lemma countReady_eq:
  "countReady ps k = k + int (length (filter IsPodReady ps))"
  by (induction ps arbitrary: k) auto

lemma length_filter_sort_key:
  "length (filter P (sort_key f xs)) = length (filter P xs)"
  by (simp add: filter_sort)

lemma quorumOf_div: "quorumOf k = (k + 1) div 2"
proof -
  have "\<lceil>real_of_int k / real_of_int 2\<rceil> = - (- k div 2)"
    by (rule ceiling_divide_eq_div)
  then show ?thesis unfolding quorumOf_def by simp
qed

lemma SetFailed_frame:
  "clName (SetFailed c r m) = clName c \<and> clNamespace (SetFailed c r m) = clNamespace c \<and>
   clSpec (SetFailed c r m) = clSpec c \<and>
   stClusterID (clStatus (SetFailed c r m)) = stClusterID (clStatus c) \<and>
   stClusterSize (clStatus (SetFailed c r m)) = stClusterSize (clStatus c) \<and>
   stClusterQuorum (clStatus (SetFailed c r m)) = stClusterQuorum (clStatus c) \<and>
   stAvailableServers (clStatus (SetFailed c r m)) = stAvailableServers (clStatus c) \<and>
   stAvailable (clStatus (SetFailed c r m)) = stAvailable (clStatus c) \<and>
   stFailed (clStatus (SetFailed c r m)) = Some (r, m)"
  by (simp add: SetFailed_def)

lemma failedLoop_frame:
  "clName (failedLoop ss c) = clName c \<and> clNamespace (failedLoop ss c) = clNamespace c \<and>
   clSpec (failedLoop ss c) = clSpec c \<and>
   stClusterID (clStatus (failedLoop ss c)) = stClusterID (clStatus c) \<and>
   stClusterSize (clStatus (failedLoop ss c)) = stClusterSize (clStatus c) \<and>
   stClusterQuorum (clStatus (failedLoop ss c)) = stClusterQuorum (clStatus c) \<and>
   stAvailableServers (clStatus (failedLoop ss c)) = stAvailableServers (clStatus c) \<and>
   stAvailable (clStatus (failedLoop ss c)) = stAvailable (clStatus c)"
  by (induction ss arbitrary: c) (simp_all add: SetFailed_frame Let_def)

lemma failedLoop_failed:
  "stFailed (clStatus (failedLoop ss c)) =
     (case filter IsFailed ss of
        [] \<Rightarrow> stFailed (clStatus c)
      | f # fs \<Rightarrow> Some (OVSDBClusterBootstrap, bootstrapMsg [srvName (last (f # fs))]))"
  by (induction ss arbitrary: c) (simp_all add: SetFailed_frame Let_def split: list.splits)

lemma clusterIDStep_frame:
  "clName (clusterIDStep c s) = clName c \<and> clNamespace (clusterIDStep c s) = clNamespace c \<and>
   clSpec (clusterIDStep c s) = clSpec c \<and>
   stClusterSize (clStatus (clusterIDStep c s)) = stClusterSize (clStatus c) \<and>
   stClusterQuorum (clStatus (clusterIDStep c s)) = stClusterQuorum (clStatus c) \<and>
   stAvailableServers (clStatus (clusterIDStep c s)) = stAvailableServers (clStatus c) \<and>
   stAvailable (clStatus (clusterIDStep c s)) = stAvailable (clStatus c)"
  by (simp add: clusterIDStep_def SetFailed_frame split: option.splits)

lemma clusterIDLoop_frame:
  "clName (clusterIDLoop ss c) = clName c \<and> clNamespace (clusterIDLoop ss c) = clNamespace c \<and>
   clSpec (clusterIDLoop ss c) = clSpec c \<and>
   stClusterSize (clStatus (clusterIDLoop ss c)) = stClusterSize (clStatus c) \<and>
   stClusterQuorum (clStatus (clusterIDLoop ss c)) = stClusterQuorum (clStatus c) \<and>
   stAvailableServers (clStatus (clusterIDLoop ss c)) = stAvailableServers (clStatus c) \<and>
   stAvailable (clStatus (clusterIDLoop ss c)) = stAvailable (clStatus c)"
  by (induction ss arbitrary: c) (simp_all add: clusterIDStep_frame)

lemma clusterIDStep_id:
  "stClusterID (clStatus c) = Some cid \<Longrightarrow> stClusterID (clStatus (clusterIDStep c s)) = Some cid"
  by (simp add: clusterIDStep_def SetFailed_frame split: option.splits)

lemma clusterIDStep_failed:
  "stClusterID (clStatus c) = Some cid \<Longrightarrow>
   stFailed (clStatus (clusterIDStep c s)) =
     (if conflicting cid s
      then Some (OVSDBClusterInconsistent,
                 inconsistentMsg (srvName s) (the (srvClusterID (srvStatus s))) cid)
      else stFailed (clStatus c))"
  by (auto simp: clusterIDStep_def SetFailed_frame conflicting_def split: option.splits)

lemma clusterIDLoop_id:
  "stClusterID (clStatus c) = Some cid \<Longrightarrow> stClusterID (clStatus (clusterIDLoop ss c)) = Some cid"
  by (induction ss arbitrary: c) (simp_all add: clusterIDStep_id)

lemma clusterIDLoop_failed:
  "stClusterID (clStatus c) = Some cid \<Longrightarrow>
   stFailed (clStatus (clusterIDLoop ss c)) =
     (case filter (conflicting cid) ss of
        [] \<Rightarrow> stFailed (clStatus c)
      | b # bs \<Rightarrow> Some (OVSDBClusterInconsistent,
                        inconsistentMsg (srvName (last (b # bs)))
                          (the (srvClusterID (srvStatus (last (b # bs))))) cid))"
proof (induction ss arbitrary: c)
  case Nil
  then show ?case by simp
next
  case (Cons s ss)
  from Cons.prems have id: "stClusterID (clStatus (clusterIDStep c s)) = Some cid"
    by (rule clusterIDStep_id)
  show ?case
    using Cons.IH[OF id] clusterIDStep_failed[OF Cons.prems, of s]
    by (simp split: list.splits)
qed

section \<open>The paths through a cycle\<close>

lemma UnsetFailed_frame:
  "clName (UnsetFailed c) = clName c \<and> clNamespace (UnsetFailed c) = clNamespace c \<and>
   clSpec (UnsetFailed c) = clSpec c \<and>
   stClusterID (clStatus (UnsetFailed c)) = stClusterID (clStatus c) \<and>
   stFailed (clStatus (UnsetFailed c)) = None"
  by (simp add: UnsetFailed_def)

lemma setAvailability_fields:
  "clName (setAvailability c ss ps) = clName c \<and>
   clNamespace (setAvailability c ss ps) = clNamespace c \<and>
   clSpec (setAvailability c ss ps) = clSpec c \<and>
   stClusterID (clStatus (setAvailability c ss ps)) = stClusterID (clStatus c) \<and>
   stFailed (clStatus (setAvailability c ss ps)) = stFailed (clStatus c) \<and>
   stClusterSize (clStatus (setAvailability c ss ps)) = countAvailable ss 0 \<and>
   stClusterQuorum (clStatus (setAvailability c ss ps)) = quorumOf (countAvailable ss 0) \<and>
   stAvailableServers (clStatus (setAvailability c ss ps)) = countReady ps 0 \<and>
   stAvailable (clStatus (setAvailability c ss ps)) =
     (countReady ps 0 \<ge> quorumOf (countAvailable ss 0) \<and> countReady ps 0 > 0)"
  by (simp add: setAvailability_def Let_def SetAvailable_def UnsetAvailable_def)

lemma projectStatus_fields:
  "clName (projectStatus c ss ps) = clName c \<and>
   clNamespace (projectStatus c ss ps) = clNamespace c \<and>
   clSpec (projectStatus c ss ps) = clSpec c \<and>
   stClusterSize (clStatus (projectStatus c ss ps)) = countAvailable ss 0 \<and>
   stClusterQuorum (clStatus (projectStatus c ss ps)) = quorumOf (countAvailable ss 0) \<and>
   stAvailableServers (clStatus (projectStatus c ss ps)) = countReady ps 0 \<and>
   stAvailable (clStatus (projectStatus c ss ps)) =
     (countReady ps 0 \<ge> quorumOf (countAvailable ss 0) \<and> countReady ps 0 > 0)"
  by (simp add: projectStatus_def clusterIDLoop_frame failedLoop_frame setAvailability_fields)

lemma getServers_UnsetFailed: "getServers e (UnsetFailed c) = getServers e c"
  by (simp add: getServers_def UnsetFailed_frame split: sum.splits)

lemma getServerPods_UnsetFailed: "getServerPods e (UnsetFailed c) = getServerPods e c"
  by (simp add: getServerPods_def UnsetFailed_frame split: sum.splits)

lemma Reconcile_get_failed:
  "envGet e ns n = Inl err \<Longrightarrow>
   Reconcile e (ns, n) =
     Some \<lparr>resErr = (if err = NotFound then None else Some (Wrap ''Get cluster'' [] err)),
           resCalls = [], resCluster = None\<rparr>"
  by (simp add: Reconcile_def)

lemma Reconcile_servers_failed:
  "envGet e ns n = Inr fetched \<Longrightarrow> getServers e fetched = Inl err \<Longrightarrow>
   Reconcile e (ns, n) =
     Some (deferredStatusUpdate e (clStatus fetched) (Some err, [], UnsetFailed fetched))"
  by (simp add: Reconcile_def reconcileBody_def Let_def getServers_UnsetFailed)

lemma Reconcile_pods_failed:
  "envGet e ns n = Inr fetched \<Longrightarrow> getServers e fetched = Inr servers \<Longrightarrow>
   getServerPods e fetched = Inl err \<Longrightarrow>
   Reconcile e (ns, n) =
     Some (deferredStatusUpdate e (clStatus fetched) (Some err, [], UnsetFailed fetched))"
  by (simp add: Reconcile_def reconcileBody_def Let_def getServers_UnsetFailed
      getServerPods_UnsetFailed)

lemma Reconcile_changed:
  "envGet e ns n = Inr fetched \<Longrightarrow> getServers e fetched = Inr servers \<Longrightarrow>
   getServerPods e fetched = Inr pods \<Longrightarrow>
   clStatus (projectStatus (UnsetFailed fetched) servers pods) \<noteq> clStatus fetched \<Longrightarrow>
   Reconcile e (ns, n) =
     Some (deferredStatusUpdate e (clStatus fetched)
             (None, [], projectStatus (UnsetFailed fetched) servers pods))"
  by (simp add: Reconcile_def reconcileBody_def Let_def getServers_UnsetFailed
      getServerPods_UnsetFailed)

lemma deferred_calls:
  "resCalls (deferredStatusUpdate e orig (err, calls, c)) =
     (if clStatus c \<noteq> orig then calls @ [StatusUpdate c (envStatusUpdate e calls c)] else calls)
   \<and> resCluster (deferredStatusUpdate e orig (err, calls, c)) = Some c
   \<and> (err \<noteq> None \<longrightarrow> resErr (deferredStatusUpdate e orig (err, calls, c)) = err)"
  by (auto simp: deferredStatusUpdate_def split: option.splits)

lemma Reconcile_unchanged:
  assumes get: "envGet e ns n = Inr fetched"
    and ls: "getServers e fetched = Inr servers"
    and lp: "getServerPods e fetched = Inr pods"
    and same: "clStatus (projectStatus (UnsetFailed fetched) servers pods) = clStatus fetched"
  shows "\<exists>err mc pc name serr.
     Reconcile e (ns, n) =
       Some \<lparr>resErr = err, resCalls = mc @ pc,
             resCluster = Some (projectStatus (UnsetFailed fetched) servers pods)\<rparr> \<and>
     nextServerName (projectStatus (UnsetFailed fetched) servers pods) (findServer servers)
       = Some name \<and>
     scaleLoop e (projectStatus (UnsetFailed fetched) servers pods) servers
       (targetServers (projectStatus (UnsetFailed fetched) servers pods))
       (int (length servers)) [] = Some (serr, mc) \<and>
     (serr \<noteq> None \<longrightarrow> pc = []) \<and>
     (serr = None \<and> clReplicas (clSpec fetched) = 0 \<longrightarrow>
        deleteLoop e pods mc = (err, mc @ pc)) \<and>
     (serr = None \<and> clReplicas (clSpec fetched) \<noteq> 0 \<longrightarrow>
        (\<exists>k. podLoop e pods (countAvailable servers 0) (quorumOf (countAvailable servers 0))
               servers (countReady pods 0) mc = (err, mc @ pc, k)))"
proof -
  let ?c = "projectStatus (UnsetFailed fetched) servers pods"
  from nextServerName_first_free[of servers ?c] obtain name where
    name: "nextServerName ?c (findServer servers) = Some name" by blast
  from scaleLoop_calls[OF name, of e "targetServers ?c" "int (length servers)" "[]"]
  obtain serr mc where
    sl: "scaleLoop e ?c servers (targetServers ?c) (int (length servers)) [] = Some (serr, mc)"
    by auto
  have spec: "clSpec ?c = clSpec fetched"
    by (simp add: projectStatus_fields UnsetFailed_frame)
  have body: "reconcileBody e fetched =
     (case serr of
        Some x \<Rightarrow> Some (Some x, mc, ?c)
      | None \<Rightarrow>
          if clReplicas (clSpec fetched) = 0
          then (case deleteLoop e pods mc of (err, calls') \<Rightarrow> Some (err, calls', ?c))
          else (case podLoop e pods (countAvailable servers 0)
                       (quorumOf (countAvailable servers 0)) servers (countReady pods 0) mc of
                  (err, calls', k) \<Rightarrow> Some (err, calls', ?c)))"
    using ls lp same sl spec
    by (simp add: reconcileBody_def Let_def getServers_UnsetFailed getServerPods_UnsetFailed
        split: option.splits)
  have fin: "deferredStatusUpdate e (clStatus fetched) (err, calls, ?c) =
      \<lparr>resErr = err, resCalls = calls, resCluster = Some ?c\<rparr>" for err calls
    using same by (simp add: deferredStatusUpdate_def)
  show ?thesis
  proof (cases serr)
    case (Some x)
    with body fin get have "Reconcile e (ns, n) =
        Some \<lparr>resErr = Some x, resCalls = mc @ [], resCluster = Some ?c\<rparr>"
      by (simp add: Reconcile_def)
    with name sl Some show ?thesis by blast
  next
    case None
    show ?thesis
    proof (cases "clReplicas (clSpec fetched) = 0")
      case True
      from deleteLoop_calls[of e pods mc] obtain err pc where
        dl: "deleteLoop e pods mc = (err, mc @ pc)" by blast
      with body fin get None True have "Reconcile e (ns, n) =
          Some \<lparr>resErr = err, resCalls = mc @ pc, resCluster = Some ?c\<rparr>"
        by (simp add: Reconcile_def)
      with name sl None True dl show ?thesis by blast
    next
      case False
      from podLoop_calls[of e pods "countAvailable servers 0"
          "quorumOf (countAvailable servers 0)" servers "countReady pods 0" mc]
      obtain err pc k where
        pl: "podLoop e pods (countAvailable servers 0) (quorumOf (countAvailable servers 0))
               servers (countReady pods 0) mc = (err, mc @ pc, k)" by blast
      with body fin get None False have "Reconcile e (ns, n) =
          Some \<lparr>resErr = err, resCalls = mc @ pc, resCluster = Some ?c\<rparr>"
        by (simp add: Reconcile_def)
      with name sl None False pl show ?thesis by blast
    qed
  qed
qed

lemma getServers_ok:
  "envListServers e (clNamespace c) (clName c) = Inr members \<Longrightarrow>
   getServers e c = Inr (sort_key srvName members)"
  by (simp add: getServers_def)

lemma getServerPods_ok:
  "envListPods e (clNamespace c) (clName c) = Inr instances \<Longrightarrow>
   getServerPods e c = Inr (sort_key podName instances)"
  by (simp add: getServerPods_def)

lemma nextServerName_same_name:
  assumes "clName c = clName c'"
  shows "nextServerName c (findServer ss) = nextServerName c' (findServer ss)"
proof -
  from assms have eq: "serverNameAt c = serverNameAt c'"
    by (auto simp: serverNameAt_def)
  from nextServerName_first_free[of ss c] obtain k where
    k: "nextServerName c (findServer ss) = Some (serverNameAt c k)"
       "findServer ss (serverNameAt c k) = None"
       "\<forall>j<k. findServer ss (serverNameAt c j) \<noteq> None" by blast
  have "nextServerNameFrom c' (findServer ss) 0 = Some (serverNameAt c' k)"
    using k(2,3) by (intro nextServerNameFrom_reaches) (auto simp: eq)
  with k(1) show ?thesis by (simp add: nextServerName_def eq)
qed

lemma Reconcile_unchanged_calls:
  assumes get: "envGet e ns n = Inr fetched"
    and ls: "getServers e fetched = Inr servers"
    and lp: "getServerPods e fetched = Inr pods"
    and same: "clStatus (projectStatus (UnsetFailed fetched) servers pods) = clStatus fetched"
  shows "\<exists>err mc pc name.
     Reconcile e (ns, n) =
       Some \<lparr>resErr = err, resCalls = mc @ pc,
             resCluster = Some (projectStatus (UnsetFailed fetched) servers pods)\<rparr> \<and>
     nextServerName fetched (findServer servers) = Some name \<and>
     (\<forall>x\<in>set mc. \<exists>r. x = CreateOrUpdateServer
         (serverApply (projectStatus (UnsetFailed fetched) servers pods)
            (serverShell (projectStatus (UnsetFailed fetched) servers pods) name) servers) r) \<and>
     length mc \<le> nat (targetServers (projectStatus (UnsetFailed fetched) servers pods)
                        - int (length servers)) \<and>
     (int (length servers) < targetServers (projectStatus (UnsetFailed fetched) servers pods)
        \<longrightarrow> mc \<noteq> []) \<and>
     (\<forall>x\<in>set pc. isPodCall x) \<and>
     (clReplicas (clSpec fetched) = 0 \<longrightarrow> (\<forall>x\<in>set pc. \<exists>p r. x = DeletePod p r)) \<and>
     (clReplicas (clSpec fetched) \<noteq> 0 \<and> pc \<noteq> [] \<longrightarrow>
        (\<exists>k. podLoop e pods (countAvailable servers 0) (quorumOf (countAvailable servers 0))
               servers (countReady pods 0) mc = (err, mc @ pc, k)))"
proof -
  let ?c = "projectStatus (UnsetFailed fetched) servers pods"
  from Reconcile_unchanged[OF get ls lp same] obtain err mc pc name serr where
    rec: "Reconcile e (ns, n) = Some \<lparr>resErr = err, resCalls = mc @ pc, resCluster = Some ?c\<rparr>"
    and name: "nextServerName ?c (findServer servers) = Some name"
    and sl: "scaleLoop e ?c servers (targetServers ?c) (int (length servers)) [] = Some (serr, mc)"
    and stop: "serr \<noteq> None \<longrightarrow> pc = []"
    and dl: "serr = None \<and> clReplicas (clSpec fetched) = 0 \<longrightarrow>
               deleteLoop e pods mc = (err, mc @ pc)"
    and pl: "serr = None \<and> clReplicas (clSpec fetched) \<noteq> 0 \<longrightarrow>
        (\<exists>k. podLoop e pods (countAvailable servers 0) (quorumOf (countAvailable servers 0))
               servers (countReady pods 0) mc = (err, mc @ pc, k))"
    by blast
  have "clName ?c = clName fetched" by (simp add: projectStatus_fields UnsetFailed_frame)
  from nextServerName_same_name[OF this, of servers] name
  have name': "nextServerName fetched (findServer servers) = Some name" by simp
  from scaleLoop_calls[OF name, of e "targetServers ?c" "int (length servers)" "[]"] sl
  have mc: "\<forall>x\<in>set mc. \<exists>r. x = CreateOrUpdateServer (serverApply ?c (serverShell ?c name) servers) r"
    "length mc \<le> nat (targetServers ?c - int (length servers))"
    "int (length servers) < targetServers ?c \<longrightarrow> mc \<noteq> []"
    by auto
  have pc: "\<forall>x\<in>set pc. isPodCall x"
  proof (cases "serr = None")
    case False
    with stop show ?thesis by simp
  next
    case True
    show ?thesis
    proof (cases "clReplicas (clSpec fetched) = 0")
      case z: True
      from deleteLoop_calls[of e pods mc] dl True z show ?thesis by auto
    next
      case nz: False
      from pl True nz obtain k where
        "podLoop e pods (countAvailable servers 0) (quorumOf (countAvailable servers 0))
               servers (countReady pods 0) mc = (err, mc @ pc, k)" by blast
      with podLoop_calls[of e pods "countAvailable servers 0"
          "quorumOf (countAvailable servers 0)" servers "countReady pods 0" mc]
      show ?thesis by auto
    qed
  qed
  have del: "clReplicas (clSpec fetched) = 0 \<longrightarrow> (\<forall>x\<in>set pc. \<exists>p r. x = DeletePod p r)"
  proof (cases "serr = None")
    case False
    with stop show ?thesis by simp
  next
    case True
    from deleteLoop_calls[of e pods mc] dl True show ?thesis by auto
  qed
  have pl': "clReplicas (clSpec fetched) \<noteq> 0 \<and> pc \<noteq> [] \<longrightarrow>
        (\<exists>k. podLoop e pods (countAvailable servers 0) (quorumOf (countAvailable servers 0))
               servers (countReady pods 0) mc = (err, mc @ pc, k))"
    using pl stop by blast
  from rec name' mc pc del pl' show ?thesis
    by (intro exI[of _ err] exI[of _ mc] exI[of _ pc] exI[of _ name]) simp
qed

lemma Reconcile_one_replacement:
  assumes get: "envGet e ns n = Inr fetched"
    and ls: "getServers e fetched = Inr servers"
    and lp: "getServerPods e fetched = Inr pods"
    and five: "countAvailable servers 0 = 5"
    and four: "countReady pods 0 = 4"
  shows "\<exists>r. Reconcile e (ns, n) = Some r \<and> length (filter podReplaced (resCalls r)) \<le> 1"
proof (cases "clStatus (projectStatus (UnsetFailed fetched) servers pods) = clStatus fetched")
  case False
  from Reconcile_changed[OF get ls lp False] False show ?thesis
    by (simp add: deferred_calls)
next
  case True
  from Reconcile_unchanged_calls[OF get ls lp True] obtain err mc pc name where
    rec: "Reconcile e (ns, n) = Some \<lparr>resErr = err, resCalls = mc @ pc,
             resCluster = Some (projectStatus (UnsetFailed fetched) servers pods)\<rparr>"
    and mc: "\<forall>x\<in>set mc. \<exists>r. x = CreateOrUpdateServer
         (serverApply (projectStatus (UnsetFailed fetched) servers pods)
            (serverShell (projectStatus (UnsetFailed fetched) servers pods) name) servers) r"
    and del: "clReplicas (clSpec fetched) = 0 \<longrightarrow> (\<forall>x\<in>set pc. \<exists>p r. x = DeletePod p r)"
    and pl: "clReplicas (clSpec fetched) \<noteq> 0 \<and> pc \<noteq> [] \<longrightarrow>
        (\<exists>k. podLoop e pods (countAvailable servers 0) (quorumOf (countAvailable servers 0))
               servers (countReady pods 0) mc = (err, mc @ pc, k))"
    by blast
  from mc have m0: "filter podReplaced mc = []" by (auto simp: filter_empty_conv)
  have "length (filter podReplaced pc) \<le> 1"
  proof (cases "clReplicas (clSpec fetched) = 0")
    case z: True
    with del have "filter podReplaced pc = []" by (auto simp: filter_empty_conv)
    then show ?thesis by simp
  next
    case nz: False
    show ?thesis
    proof (cases "pc = []")
      case True
      then show ?thesis by simp
    next
      case False
      with pl nz five four obtain k where
        run: "podLoop e pods 5 (quorumOf 5) servers 4 mc = (err, mc @ pc, k)" by auto
      show ?thesis
        by (rule podLoop_one_replacement[OF _ _ run]) (simp_all add: quorumOf_div)
    qed
  qed
  with rec m0 show ?thesis by simp
qed

lemma Reconcile_lists_ok:
  assumes get: "envGet e ns n = Inr fetched"
    and ls: "getServers e fetched = Inr servers"
    and lp: "getServerPods e fetched = Inr pods"
  shows "\<exists>r. Reconcile e (ns, n) = Some r \<and>
     resCluster r = Some (projectStatus (UnsetFailed fetched) servers pods) \<and>
     (clStatus (projectStatus (UnsetFailed fetched) servers pods) \<noteq> clStatus fetched \<longrightarrow>
        resCalls r = [StatusUpdate (projectStatus (UnsetFailed fetched) servers pods)
                        (envStatusUpdate e [] (projectStatus (UnsetFailed fetched) servers pods))])"
proof (cases "clStatus (projectStatus (UnsetFailed fetched) servers pods) = clStatus fetched")
  case False
  from Reconcile_changed[OF get ls lp False] False show ?thesis
    by (simp add: deferred_calls)
next
  case True
  from Reconcile_unchanged_calls[OF get ls lp True] True show ?thesis by auto
qed

lemma collectPeers_eq:
  "collectPeers server peers acc =
     acc @ map (\<lambda>peer. the (srvRaftAddress (srvStatus peer)))
             (filter (\<lambda>peer. srvName peer \<noteq> srvName server \<and>
                              srvRaftAddress (srvStatus peer) \<noteq> None) peers)"
  by (induction peers arbitrary: acc) auto

lemma serverApply_fields:
  "srvName (serverApply c s ss) = srvName s \<and>
   specInitPeers (srvSpec (serverApply c s ss)) = collectPeers s ss []"
  by (simp add: serverApply_def Let_def)

lemma nextServerName_unused:
  "nextServerName c (findServer ss) = Some name \<Longrightarrow> name \<notin> srvName ` set ss"
  using nextServerName_first_free[of ss c] by (auto simp: findServer_None)

lemma projectStatus_unchanged_eq:
  "clStatus (projectStatus (UnsetFailed fetched) servers pods) = clStatus fetched \<Longrightarrow>
   projectStatus (UnsetFailed fetched) servers pods = fetched"
  by (rule OVSDBCluster.equality) (simp_all add: projectStatus_fields UnsetFailed_frame)

lemma clusterIDLoop_append:
  "clusterIDLoop (xs @ ys) c = clusterIDLoop ys (clusterIDLoop xs c)"
  by (induction xs arbitrary: c) simp_all

lemma clusterIDStep_null:
  "stClusterID (clStatus c) = None \<Longrightarrow> srvClusterID (srvStatus s) = None \<Longrightarrow>
   clusterIDStep c s = c"
  by (cases c, cases "clStatus c") (simp add: clusterIDStep_def)

lemma clusterIDLoop_null:
  "stClusterID (clStatus c) = None \<Longrightarrow> \<forall>x\<in>set pre. srvClusterID (srvStatus x) = None \<Longrightarrow>
   clusterIDLoop pre c = c"
  by (induction pre arbitrary: c) (simp_all add: clusterIDStep_null)

lemma clusterIDStep_adopt:
  "stClusterID (clStatus c) = None \<Longrightarrow>
   stClusterID (clStatus (clusterIDStep c s)) = srvClusterID (srvStatus s) \<and>
   stFailed (clStatus (clusterIDStep c s)) = stFailed (clStatus c)"
  by (simp add: clusterIDStep_def)

lemma clusterIDLoop_adopt_failed:
  assumes null: "stClusterID (clStatus c) = None"
    and pre: "\<forall>x\<in>set pre. srvClusterID (srvStatus x) = None"
    and s: "srvClusterID (srvStatus s) = Some cid"
  shows "stFailed (clStatus (clusterIDLoop (pre @ s # post) c)) =
     (case filter (conflicting cid) (pre @ s # post) of
        [] \<Rightarrow> stFailed (clStatus c)
      | b # bs \<Rightarrow> Some (OVSDBClusterInconsistent,
                        inconsistentMsg (srvName (last (b # bs)))
                          (the (srvClusterID (srvStatus (last (b # bs))))) cid))"
proof -
  from pre have f1: "filter (conflicting cid) pre = []"
    by (auto simp: filter_empty_conv conflicting_def)
  from s have f2: "\<not> conflicting cid s" by (simp add: conflicting_def)
  have run: "clusterIDLoop (pre @ s # post) c = clusterIDLoop post (clusterIDStep c s)"
    by (simp add: clusterIDLoop_append clusterIDLoop_null[OF null pre])
  from clusterIDStep_adopt[OF null, of s] s
  have id: "stClusterID (clStatus (clusterIDStep c s)) = Some cid"
    and keep: "stFailed (clStatus (clusterIDStep c s)) = stFailed (clStatus c)" by simp_all
  from clusterIDLoop_failed[OF id, of post] keep f1 f2 run show ?thesis
    by (simp split: list.splits)
qed

lemma projectStatus_id_failed:
  assumes "stClusterID (clStatus fetched) = Some cid \<or>
     (stClusterID (clStatus fetched) = None \<and> servers = pre @ s # post \<and>
      (\<forall>x\<in>set pre. srvClusterID (srvStatus x) = None) \<and>
      srvClusterID (srvStatus s) = Some cid)"
  shows "stFailed (clStatus (projectStatus (UnsetFailed fetched) servers pods)) =
     (case filter (conflicting cid) servers of
        [] \<Rightarrow> stFailed (clStatus (failedLoop servers
                  (setAvailability (UnsetFailed fetched) servers pods)))
      | b # bs \<Rightarrow> Some (OVSDBClusterInconsistent,
                        inconsistentMsg (srvName (last (b # bs)))
                          (the (srvClusterID (srvStatus (last (b # bs))))) cid))"
proof -
  let ?c = "failedLoop servers (setAvailability (UnsetFailed fetched) servers pods)"
  have id: "stClusterID (clStatus ?c) = stClusterID (clStatus fetched)"
    by (simp add: failedLoop_frame setAvailability_fields UnsetFailed_frame)
  from assms show ?thesis
  proof
    assume "stClusterID (clStatus fetched) = Some cid"
    with id have "stClusterID (clStatus ?c) = Some cid" by simp
    from clusterIDLoop_failed[OF this] show ?thesis by (simp add: projectStatus_def)
  next
    assume a: "stClusterID (clStatus fetched) = None \<and> servers = pre @ s # post \<and>
      (\<forall>x\<in>set pre. srvClusterID (srvStatus x) = None) \<and>
      srvClusterID (srvStatus s) = Some cid"
    with id have null: "stClusterID (clStatus ?c) = None" by simp
    from a have pre: "\<forall>x\<in>set pre. srvClusterID (srvStatus x) = None"
      and s: "srvClusterID (srvStatus s) = Some cid"
      and split: "servers = pre @ s # post" by simp_all
    from clusterIDLoop_adopt_failed[OF null pre s, of post] split
    show ?thesis by (simp add: projectStatus_def)
  qed
qed

lemma Reconcile_unchanged_run:
  assumes get: "envGet e ns n = Inr fetched"
    and ls: "getServers e fetched = Inr servers"
    and lp: "getServerPods e fetched = Inr pods"
    and same: "clStatus (projectStatus (UnsetFailed fetched) servers pods) = clStatus fetched"
  shows "\<exists>serr mc.
     scaleLoop e fetched servers (targetServers fetched) (int (length servers)) [] =
       Some (serr, mc) \<and>
     Reconcile e (ns, n) =
       Some (case serr of
               Some x \<Rightarrow> \<lparr>resErr = Some x, resCalls = mc, resCluster = Some fetched\<rparr>
             | None \<Rightarrow>
                 if clReplicas (clSpec fetched) = 0
                 then (case deleteLoop e pods mc of
                         (err, calls') \<Rightarrow>
                           \<lparr>resErr = err, resCalls = calls', resCluster = Some fetched\<rparr>)
                 else (case podLoop e pods (countAvailable servers 0)
                              (quorumOf (countAvailable servers 0)) servers
                              (countReady pods 0) mc of
                         (err, calls', k) \<Rightarrow>
                           \<lparr>resErr = err, resCalls = calls', resCluster = Some fetched\<rparr>))"
proof -
  note eq = projectStatus_unchanged_eq[OF same]
  from nextServerName_first_free[of servers fetched] obtain name where
    name: "nextServerName fetched (findServer servers) = Some name" by blast
  from scaleLoop_calls[OF name, of e "targetServers fetched" "int (length servers)" "[]"]
  obtain serr mc where
    sl: "scaleLoop e fetched servers (targetServers fetched) (int (length servers)) [] =
           Some (serr, mc)"
    by auto
  have body: "reconcileBody e fetched =
     (case serr of
        Some x \<Rightarrow> Some (Some x, mc, fetched)
      | None \<Rightarrow>
          if clReplicas (clSpec fetched) = 0
          then (case deleteLoop e pods mc of (err, calls') \<Rightarrow> Some (err, calls', fetched))
          else (case podLoop e pods (countAvailable servers 0)
                       (quorumOf (countAvailable servers 0)) servers (countReady pods 0) mc of
                  (err, calls', k) \<Rightarrow> Some (err, calls', fetched)))"
    using ls lp sl
    by (simp add: reconcileBody_def Let_def getServers_UnsetFailed getServerPods_UnsetFailed eq
        split: option.splits)
  have fin: "deferredStatusUpdate e (clStatus fetched) (err, calls, fetched) =
      \<lparr>resErr = err, resCalls = calls, resCluster = Some fetched\<rparr>" for err calls
    by (simp add: deferredStatusUpdate_def)
  have "Reconcile e (ns, n) =
       Some (case serr of
               Some x \<Rightarrow> \<lparr>resErr = Some x, resCalls = mc, resCluster = Some fetched\<rparr>
             | None \<Rightarrow>
                 if clReplicas (clSpec fetched) = 0
                 then (case deleteLoop e pods mc of
                         (err, calls') \<Rightarrow>
                           \<lparr>resErr = err, resCalls = calls', resCluster = Some fetched\<rparr>)
                 else (case podLoop e pods (countAvailable servers 0)
                              (quorumOf (countAvailable servers 0)) servers
                              (countReady pods 0) mc of
                         (err, calls', k) \<Rightarrow>
                           \<lparr>resErr = err, resCalls = calls', resCluster = Some fetched\<rparr>))"
    using get body fin
    by (simp add: Reconcile_def split: option.splits prod.splits)
  with sl show ?thesis by blast
qed

lemma unchanged_status_counts:
  assumes same: "clStatus (projectStatus (UnsetFailed fetched) servers pods) = clStatus fetched"
  shows "stClusterSize (clStatus fetched) = countAvailable servers 0 \<and>
     stClusterQuorum (clStatus fetched) = quorumOf (countAvailable servers 0) \<and>
     stAvailableServers (clStatus fetched) = countReady pods 0"
  using projectStatus_fields[of "UnsetFailed fetched" servers pods] same by simp

lemma Reconcile_runs_podLoop:
  assumes get: "envGet e ns n = Inr fetched"
    and ls: "getServers e fetched = Inr servers"
    and lp: "getServerPods e fetched = Inr pods"
    and same: "clStatus (projectStatus (UnsetFailed fetched) servers pods) = clStatus fetched"
    and nz: "clReplicas (clSpec fetched) \<noteq> 0"
  shows "\<exists>r serr mc. Reconcile e (ns, n) = Some r \<and>
     scaleLoop e fetched servers (targetServers fetched) (int (length servers)) [] =
       Some (serr, mc) \<and>
     stClusterSize (clStatus fetched) = countAvailable servers 0 \<and>
     stClusterQuorum (clStatus fetched) = quorumOf (countAvailable servers 0) \<and>
     stAvailableServers (clStatus fetched) = countReady pods 0 \<and>
     (serr \<noteq> None \<longrightarrow> resErr r = serr \<and> resCalls r = mc) \<and>
     (serr = None \<longrightarrow>
        (\<exists>err made k.
           podLoop e pods (stClusterSize (clStatus fetched)) (stClusterQuorum (clStatus fetched))
             servers (stAvailableServers (clStatus fetched)) mc = (err, mc @ made, k) \<and>
           resErr r = err \<and> resCalls r = mc @ made))"
proof -
  note counts = unchanged_status_counts[OF same]
  from Reconcile_unchanged_run[OF get ls lp same] nz obtain serr mc where
    sl: "scaleLoop e fetched servers (targetServers fetched) (int (length servers)) [] =
           Some (serr, mc)"
    and rec: "Reconcile e (ns, n) =
       Some (case serr of
               Some x \<Rightarrow> \<lparr>resErr = Some x, resCalls = mc, resCluster = Some fetched\<rparr>
             | None \<Rightarrow>
                 (case podLoop e pods (countAvailable servers 0)
                              (quorumOf (countAvailable servers 0)) servers
                              (countReady pods 0) mc of
                         (err, calls', k) \<Rightarrow>
                           \<lparr>resErr = err, resCalls = calls', resCluster = Some fetched\<rparr>))"
    by auto
  show ?thesis
  proof (cases serr)
    case (Some x)
    with rec sl counts show ?thesis by auto
  next
    case None
    from podLoop_calls[of e pods "countAvailable servers 0"
        "quorumOf (countAvailable servers 0)" servers "countReady pods 0" mc]
    obtain err made k where
      pl: "podLoop e pods (countAvailable servers 0) (quorumOf (countAvailable servers 0))
             servers (countReady pods 0) mc = (err, mc @ made, k)" by blast
    with rec None have r: "Reconcile e (ns, n) =
        Some \<lparr>resErr = err, resCalls = mc @ made, resCluster = Some fetched\<rparr>" by simp
    from r sl None pl counts show ?thesis by auto
  qed
qed

section \<open>Composition of the per-member loop, and facts for evaluation\<close>

lemma podLoop_append:
  "podLoop e pods cs q pre nA calls = (None, calls', k) \<Longrightarrow>
   podLoop e pods cs q (pre @ rest) nA calls = podLoop e pods cs q rest k calls'"
proof (induction pre arbitrary: nA calls)
  case Nil
  then show ?case by simp
next
  case (Cons s pre)
  let ?pod = "findPod pods (srvName s)"
  let ?skip = "\<not> IsAvailable s \<or> (?pod \<noteq> None \<and> cs \<ge> 3 \<and> nA \<le> q)"
  show ?case
  proof (cases ?skip)
    case True
    from podLoop_skip[OF True, of e] Cons show ?thesis by simp
  next
    case False
    then have av: "IsAvailable s" and go: "\<not> (?pod \<noteq> None \<and> cs \<ge> 3 \<and> nA \<le> q)" by auto
    show ?thesis
    proof (cases "envCreateOrDelete e calls ?pod s")
      case (Inl err)
      from podLoop_fail[OF av go Inl, of pre] Cons.prems show ?thesis by simp
    next
      case (Inr op)
      from podLoop_ok[OF av go Inr, of pre] podLoop_ok[OF av go Inr, of "pre @ rest"]
        Cons.IH Cons.prems show ?thesis by simp
    qed
  qed
qed

lemmas scenario_defs = member_def pod_def freshStatus_def clusterC_def storeOf_def
  zeroSpec_def zeroStatus_def fiveMembers_def fivePods_def fiveStatus_def fiveStore_def
  oneStatus_def firstMember_def oneStore_def staleStatus_def seededStatus_def

lemmas eval_defs = IsAvailable_def IsFailed_def IsPodReady_def OperationResultNone_def Let_def

lemma showNat_digits:
  "showNat 0 = ''0''" "showNat 1 = ''1''" "showNat (Suc 0) = ''1''" "showNat 2 = ''2''"
  by (simp_all add: showNat.simps digitChar_def)

lemmas cycle_defs = Reconcile_def reconcileBody_def deferredStatusUpdate_def getServers_def
  getServerPods_def projectStatus_def setAvailability_def UnsetFailed_def UnsetAvailable_def
  SetAvailable_def SetFailed_def clusterIDStep_def quorumOf_div targetServers_def
  scaleLoop.simps nextServerName_def nextServerNameFrom.simps serverNameAt_def
  showNat.simps digitChar_def serverShell_def

section \<open>The claims of the specification\<close>

text \<open>
  Claim C1. In the per-member loop, when the loop reaches an available member whose pod
  exists, with the working count \<open>working\<close> it has after the members before it:
  the working count is the initial count minus the number of pods created or replaced
  so far in the loop; a replacement is attempted (the pod is handed to
  \<^verbatim>\<open>CreateOrDelete\<close>, and the loop goes on with the count lowered by one when the
  pod was changed) if the cluster size is below 3, or is at least 3 and the working count
  is strictly above the quorum, and otherwise the member is passed over with no call and
  no change of the count. With cluster size 5, quorum 3 and 4 ready pods, at most one
  pod is replaced by the loop, and by a whole cycle. A cycle that reaches instance
  reconciliation with a replica count other than zero runs this loop over the observed
  members, with the clusterSize, clusterQuorum and availableServers of its status and
  after the calls of the scale-up loop: the calls and the error of the loop are those of
  the cycle.
\<close>

theorem podLoop_quorum_safe_replacement:
  assumes av: "IsAvailable server"
    and pod: "findPod serverPods (srvName server) = Some p"
    and pre: "podLoop e serverPods clusterSize clusterQuorum before nAvailable calls =
                (None, calls @ new, working)"
  shows "working = nAvailable - int (length (filter podChanged new)) \<and>
     podLoop e serverPods clusterSize clusterQuorum (before @ server # rest) nAvailable calls =
       (if clusterSize < 3 \<or> (clusterSize \<ge> 3 \<and> working > clusterQuorum)
        then (case envCreateOrDelete e (calls @ new) (Some p) server of
                Inl err \<Rightarrow>
                  (Some (Wrap ''Update server pod'' (srvName server) err),
                   calls @ new @ [CreateOrDeletePod (Some p) server (Inl err)], working)
              | Inr op \<Rightarrow>
                  podLoop e serverPods clusterSize clusterQuorum rest
                    (if op \<noteq> OperationResultNone then working - 1 else working)
                    (calls @ new @ [CreateOrDeletePod (Some p) server (Inr op)]))
        else podLoop e serverPods clusterSize clusterQuorum rest working (calls @ new)) \<and>
     quorumOf 5 = 3 \<and>
     (\<exists>err made k. podLoop e serverPods 5 (quorumOf 5) servers 4 calls = (err, calls @ made, k) \<and>
        length (filter podReplaced made) \<le> 1) \<and>
     (envGet e ns n = Inr fetched \<and> getServers e fetched = Inr observed \<and>
      getServerPods e fetched = Inr serverPods \<and>
      countAvailable observed 0 = 5 \<and> countReady serverPods 0 = 4 \<longrightarrow>
        (\<exists>r. Reconcile e (ns, n) = Some r \<and> length (filter podReplaced (resCalls r)) \<le> 1)) \<and>
     (envGet e ns n = Inr fetched \<and> getServers e fetched = Inr observed \<and>
      getServerPods e fetched = Inr serverPods \<and>
      clStatus (projectStatus (UnsetFailed fetched) observed serverPods) = clStatus fetched \<and>
      clReplicas (clSpec fetched) \<noteq> 0 \<longrightarrow>
        (\<exists>r serr mc. Reconcile e (ns, n) = Some r \<and>
           scaleLoop e fetched observed (targetServers fetched) (int (length observed)) [] =
             Some (serr, mc) \<and>
           stClusterSize (clStatus fetched) = countAvailable observed 0 \<and>
           stClusterQuorum (clStatus fetched) = quorumOf (countAvailable observed 0) \<and>
           stAvailableServers (clStatus fetched) = countReady serverPods 0 \<and>
           (serr \<noteq> None \<longrightarrow> resErr r = serr \<and> resCalls r = mc) \<and>
           (serr = None \<longrightarrow>
              (\<exists>err made k.
                 podLoop e serverPods (stClusterSize (clStatus fetched))
                   (stClusterQuorum (clStatus fetched)) observed
                   (stAvailableServers (clStatus fetched)) mc = (err, mc @ made, k) \<and>
                 resErr r = err \<and> resCalls r = mc @ made))))"
proof -
  from podLoop_calls[of e serverPods clusterSize clusterQuorum before nAvailable calls] pre
  have count: "working = nAvailable - int (length (filter podChanged new))" by auto
  have q5: "quorumOf 5 = 3" by (simp add: quorumOf_div)
  have step: "podLoop e serverPods clusterSize clusterQuorum (before @ server # rest)
        nAvailable calls =
      podLoop e serverPods clusterSize clusterQuorum (server # rest) working (calls @ new)"
    using pre by (rule podLoop_append)
  have one: "podLoop e serverPods clusterSize clusterQuorum (server # rest) working
        (calls @ new) =
       (if clusterSize < 3 \<or> (clusterSize \<ge> 3 \<and> working > clusterQuorum)
        then (case envCreateOrDelete e (calls @ new) (Some p) server of
                Inl err \<Rightarrow>
                  (Some (Wrap ''Update server pod'' (srvName server) err),
                   calls @ new @ [CreateOrDeletePod (Some p) server (Inl err)], working)
              | Inr op \<Rightarrow>
                  podLoop e serverPods clusterSize clusterQuorum rest
                    (if op \<noteq> OperationResultNone then working - 1 else working)
                    (calls @ new @ [CreateOrDeletePod (Some p) server (Inr op)]))
        else podLoop e serverPods clusterSize clusterQuorum rest working (calls @ new))"
    using av pod by (auto simp: Let_def split: sum.splits)
  from podLoop_calls[of e serverPods 5 "quorumOf 5" servers 4 calls] obtain err made k where
    run: "podLoop e serverPods 5 (quorumOf 5) servers 4 calls = (err, calls @ made, k)" by blast
  have "length (filter podReplaced made) \<le> 1"
    by (rule podLoop_one_replacement[OF _ _ run]) (simp_all add: q5)
  with run have loop: "\<exists>err made k. podLoop e serverPods 5 (quorumOf 5) servers 4 calls =
        (err, calls @ made, k) \<and> length (filter podReplaced made) \<le> 1" by blast
  have cycle: "envGet e ns n = Inr fetched \<and> getServers e fetched = Inr observed \<and>
      getServerPods e fetched = Inr serverPods \<and>
      countAvailable observed 0 = 5 \<and> countReady serverPods 0 = 4 \<longrightarrow>
        (\<exists>r. Reconcile e (ns, n) = Some r \<and> length (filter podReplaced (resCalls r)) \<le> 1)"
    using Reconcile_one_replacement by blast
  have link: "envGet e ns n = Inr fetched \<and> getServers e fetched = Inr observed \<and>
      getServerPods e fetched = Inr serverPods \<and>
      clStatus (projectStatus (UnsetFailed fetched) observed serverPods) = clStatus fetched \<and>
      clReplicas (clSpec fetched) \<noteq> 0 \<longrightarrow>
        (\<exists>r serr mc. Reconcile e (ns, n) = Some r \<and>
           scaleLoop e fetched observed (targetServers fetched) (int (length observed)) [] =
             Some (serr, mc) \<and>
           stClusterSize (clStatus fetched) = countAvailable observed 0 \<and>
           stClusterQuorum (clStatus fetched) = quorumOf (countAvailable observed 0) \<and>
           stAvailableServers (clStatus fetched) = countReady serverPods 0 \<and>
           (serr \<noteq> None \<longrightarrow> resErr r = serr \<and> resCalls r = mc) \<and>
           (serr = None \<longrightarrow>
              (\<exists>err made k.
                 podLoop e serverPods (stClusterSize (clStatus fetched))
                   (stClusterQuorum (clStatus fetched)) observed
                   (stAvailableServers (clStatus fetched)) mc = (err, mc @ made, k) \<and>
                 resErr r = err \<and> resCalls r = mc @ made)))"
    using Reconcile_runs_podLoop by blast
  from count have c1: "working = nAvailable - int (length (filter podChanged new))" .
  from step one have c2: "podLoop e serverPods clusterSize clusterQuorum (before @ server # rest)
        nAvailable calls =
       (if clusterSize < 3 \<or> (clusterSize \<ge> 3 \<and> working > clusterQuorum)
        then (case envCreateOrDelete e (calls @ new) (Some p) server of
                Inl err \<Rightarrow>
                  (Some (Wrap ''Update server pod'' (srvName server) err),
                   calls @ new @ [CreateOrDeletePod (Some p) server (Inl err)], working)
              | Inr op \<Rightarrow>
                  podLoop e serverPods clusterSize clusterQuorum rest
                    (if op \<noteq> OperationResultNone then working - 1 else working)
                    (calls @ new @ [CreateOrDeletePod (Some p) server (Inr op)]))
        else podLoop e serverPods clusterSize clusterQuorum rest working (calls @ new))"
    by simp
  from c1 c2 q5 loop cycle link show ?thesis by (intro conjI)
qed

theorem podLoop_quorum_safe_replacement_witness:
  "IsAvailable (member ''c-0'' True False (Some ''x'') None) \<and>
   findPod fivePods (srvName (member ''c-0'' True False (Some ''x'') None))
     = Some (pod ''c-0'' True) \<and>
   IsAvailable (member ''c-1'' True False (Some ''x'') None) \<and>
   findPod fivePods (srvName (member ''c-1'' True False (Some ''x'') None))
     = Some (pod ''c-1'' True) \<and>
   podLoop fiveStore fivePods 5 3 [] 4 [] = (None, [], 4) \<and>
   podLoop fiveStore fivePods 5 3 [member ''c-0'' True False (Some ''x'') None] 4 []
     = (None, [CreateOrDeletePod (Some (pod ''c-0'' True))
                 (member ''c-0'' True False (Some ''x'') None) (Inr ''updated'')], 3) \<and>
   podLoop fiveStore fivePods 5 3 fiveMembers 4 []
     = (None, [CreateOrDeletePod (Some (pod ''c-0'' True))
                 (member ''c-0'' True False (Some ''x'') None) (Inr ''updated'')], 3) \<and>
   envGet fiveStore ''ns'' ''c'' = Inr (clusterC 5 fiveStatus) \<and>
   getServers fiveStore (clusterC 5 fiveStatus) = Inr fiveMembers \<and>
   getServerPods fiveStore (clusterC 5 fiveStatus) = Inr fivePods \<and>
   clStatus (projectStatus (UnsetFailed (clusterC 5 fiveStatus)) fiveMembers fivePods)
     = clStatus (clusterC 5 fiveStatus) \<and>
   clReplicas (clSpec (clusterC 5 fiveStatus)) \<noteq> 0 \<and>
   countAvailable fiveMembers 0 = 5 \<and> countReady fivePods 0 = 4 \<and>
   scaleLoop fiveStore (clusterC 5 fiveStatus) fiveMembers
     (targetServers (clusterC 5 fiveStatus)) (int (length fiveMembers)) [] = Some (None, []) \<and>
   (\<exists>r. Reconcile fiveStore (''ns'', ''c'') = Some r \<and>
        length (filter podReplaced (resCalls r)) \<le> 1 \<and>
        resErr r = None \<and>
        resCalls r = [CreateOrDeletePod (Some (pod ''c-0'' True))
                        (member ''c-0'' True False (Some ''x'') None) (Inr ''updated'')])"
proof -
  let ?cl = "clusterC 5 fiveStatus"
  let ?m0 = "member ''c-0'' True False (Some ''x'') None"
  let ?m1 = "member ''c-1'' True False (Some ''x'') None"
  let ?rest = "[member ''c-2'' True False (Some ''x'') None,
                member ''c-3'' True False (Some ''x'') None,
                member ''c-4'' True False (Some ''x'') None]"
  let ?call = "CreateOrDeletePod (Some (pod ''c-0'' True)) ?m0 (Inr ''updated'')"
  have five_split: "fiveMembers = [] @ ?m0 # ?m1 # ?rest" "fiveMembers = [?m0] @ ?m1 # ?rest"
    by (simp_all add: fiveMembers_def)
  have a0: "IsAvailable ?m0" by (simp add: eval_defs member_def)
  have p0: "findPod fivePods (srvName ?m0) = Some (pod ''c-0'' True)"
    by (simp add: scenario_defs)
  have s0: "podLoop fiveStore fivePods 5 3 [] 4 [] = (None, [] @ [], 4)" by simp
  have h1: "IsAvailable ?m1" by (simp add: eval_defs member_def)
  have h2: "findPod fivePods (srvName ?m1) = Some (pod ''c-1'' True)"
    by (simp add: scenario_defs)
  have h3: "podLoop fiveStore fivePods 5 3 [?m0] 4 [] = (None, [] @ [?call], 3)"
    by (simp add: eval_defs scenario_defs)
  have g: "envGet fiveStore ''ns'' ''c'' = Inr ?cl"
    by (simp add: scenario_defs)
  have ls: "getServers fiveStore ?cl = Inr fiveMembers"
    by (simp add: getServers_def scenario_defs)
  have lp: "getServerPods fiveStore ?cl = Inr fivePods"
    by (simp add: getServerPods_def scenario_defs)
  have five: "countAvailable fiveMembers 0 = 5" by (simp add: eval_defs scenario_defs)
  have four: "countReady fivePods 0 = 4" by (simp add: eval_defs scenario_defs)
  have same: "clStatus (projectStatus (UnsetFailed ?cl) fiveMembers fivePods) = clStatus ?cl"
    by (simp add: cycle_defs eval_defs scenario_defs)
  have nz: "clReplicas (clSpec ?cl) \<noteq> 0" by (simp add: clusterC_def)
  have sl: "scaleLoop fiveStore ?cl fiveMembers (targetServers ?cl) (int (length fiveMembers)) []
      = Some (None, [])"
    by (simp add: cycle_defs scenario_defs)
  have st: "stClusterSize (clStatus ?cl) = 5" "stClusterQuorum (clStatus ?cl) = 3"
    "stAvailableServers (clStatus ?cl) = 4" by (simp_all add: scenario_defs)
  from podLoop_quorum_safe_replacement[OF a0 p0 s0, where rest = "[]"]
  have first: "podLoop fiveStore fivePods 5 3 ([] @ [?m0]) 4 [] = (None, [?call], 3)"
    by (simp add: scenario_defs eval_defs)
  note inst = podLoop_quorum_safe_replacement[OF h1 h2 h3, where ns = "''ns''" and n = "''c''"
      and fetched = ?cl and observed = fiveMembers and servers = fiveMembers and rest = ?rest]
  note i2 = inst[THEN conjunct2, THEN conjunct1]
    and i5 = inst[THEN conjunct2, THEN conjunct2, THEN conjunct2, THEN conjunct2, THEN conjunct1]
    and i6 = inst[THEN conjunct2, THEN conjunct2, THEN conjunct2, THEN conjunct2, THEN conjunct2]
  from i2 have second: "podLoop fiveStore fivePods 5 3 ([?m0] @ ?m1 # ?rest) 4 [] =
      podLoop fiveStore fivePods 5 3 ?rest 3 [?call]" by simp
  have tail: "podLoop fiveStore fivePods 5 3 ?rest 3 [?call] = (None, [?call], 3)"
    by (simp add: eval_defs scenario_defs)
  have whole: "podLoop fiveStore fivePods 5 3 fiveMembers 4 [] = (None, [?call], 3)"
    unfolding five_split(2) by (rule trans[OF second tail])
  have bound: "\<exists>r. Reconcile fiveStore (''ns'', ''c'') = Some r \<and>
        length (filter podReplaced (resCalls r)) \<le> 1"
    by (rule mp[OF i5]) (intro conjI g ls lp five four)
  have "\<exists>r serr mc. Reconcile fiveStore (''ns'', ''c'') = Some r \<and>
           scaleLoop fiveStore ?cl fiveMembers (targetServers ?cl) (int (length fiveMembers)) [] =
             Some (serr, mc) \<and>
           stClusterSize (clStatus ?cl) = countAvailable fiveMembers 0 \<and>
           stClusterQuorum (clStatus ?cl) = quorumOf (countAvailable fiveMembers 0) \<and>
           stAvailableServers (clStatus ?cl) = countReady fivePods 0 \<and>
           (serr \<noteq> None \<longrightarrow> resErr r = serr \<and> resCalls r = mc) \<and>
           (serr = None \<longrightarrow>
              (\<exists>err made k.
                 podLoop fiveStore fivePods (stClusterSize (clStatus ?cl))
                   (stClusterQuorum (clStatus ?cl)) fiveMembers
                   (stAvailableServers (clStatus ?cl)) mc = (err, mc @ made, k) \<and>
                 resErr r = err \<and> resCalls r = mc @ made))"
    by (rule mp[OF i6]) (intro conjI g ls lp same nz)
  then obtain r serr mc where
    r: "Reconcile fiveStore (''ns'', ''c'') = Some r"
    and sl': "scaleLoop fiveStore ?cl fiveMembers (targetServers ?cl) (int (length fiveMembers)) []
               = Some (serr, mc)"
    and run: "serr = None \<longrightarrow>
              (\<exists>err made k.
                 podLoop fiveStore fivePods (stClusterSize (clStatus ?cl))
                   (stClusterQuorum (clStatus ?cl)) fiveMembers
                   (stAvailableServers (clStatus ?cl)) mc = (err, mc @ made, k) \<and>
                 resErr r = err \<and> resCalls r = mc @ made)"
    by (elim exE conjE) (rule that)
  from sl sl' have "serr = None" "mc = []" by simp_all
  with run st whole have res: "resErr r = None" "resCalls r = [?call]" by auto
  from bound r have "length (filter podReplaced (resCalls r)) \<le> 1" by auto
  with r res have cyc: "\<exists>r. Reconcile fiveStore (''ns'', ''c'') = Some r \<and>
        length (filter podReplaced (resCalls r)) \<le> 1 \<and>
        resErr r = None \<and> resCalls r = [?call]" by blast
  from first have first': "podLoop fiveStore fivePods 5 3 [?m0] 4 [] = (None, [?call], 3)"
    by (simp only: append_Nil)
  have s0': "podLoop fiveStore fivePods 5 3 [] 4 [] = (None, [], 4)" by simp
  from a0 p0 h1 h2 s0' first' whole g ls lp same nz five four sl cyc show ?thesis
    by (intro conjI)
qed

text \<open>
  Claim C2. A cycle that has fetched the cluster and listed its members and pods leaves
  the cluster with a status in which clusterSize is the number of members whose
  Available condition holds, clusterQuorum is the ceiling of clusterSize / 2,
  availableServers is the number of ready pods, and Available holds exactly when
  availableServers reaches the quorum and is positive; when this status differs from the
  one fetched, the cycle saves it with one status update. Sizes 0 to 5 have the quorums
  0, 1, 1, 2, 2, 3.
\<close>

theorem Reconcile_status_projection:
  assumes get: "envGet e ns n = Inr fetched"
    and ls: "envListServers e (clNamespace fetched) (clName fetched) = Inr members"
    and lp: "envListPods e (clNamespace fetched) (clName fetched) = Inr instances"
  shows "\<exists>r cluster. Reconcile e (ns, n) = Some r \<and> resCluster r = Some cluster \<and>
     stClusterSize (clStatus cluster) = int (length (filter IsAvailable members)) \<and>
     stClusterQuorum (clStatus cluster) = \<lceil>real_of_int (stClusterSize (clStatus cluster)) / 2\<rceil> \<and>
     stAvailableServers (clStatus cluster) = int (length (filter IsPodReady instances)) \<and>
     (stAvailable (clStatus cluster) \<longleftrightarrow>
        stAvailableServers (clStatus cluster) \<ge> stClusterQuorum (clStatus cluster) \<and>
        stAvailableServers (clStatus cluster) > 0) \<and>
     (clStatus cluster \<noteq> clStatus fetched \<longrightarrow>
        resCalls r = [StatusUpdate cluster (envStatusUpdate e [] cluster)]) \<and>
     map quorumOf [0, 1, 2, 3, 4, 5] = [0, 1, 1, 2, 2, 3]"
proof -
  let ?servers = "sort_key srvName members"
  let ?pods = "sort_key podName instances"
  let ?c = "projectStatus (UnsetFailed fetched) ?servers ?pods"
  from Reconcile_lists_ok[OF get getServers_ok[OF ls] getServerPods_ok[OF lp]]
  obtain r where r: "Reconcile e (ns, n) = Some r" "resCluster r = Some ?c"
    "clStatus ?c \<noteq> clStatus fetched \<longrightarrow>
       resCalls r = [StatusUpdate ?c (envStatusUpdate e [] ?c)]" by blast
  have size: "stClusterSize (clStatus ?c) = int (length (filter IsAvailable members))"
    by (simp add: projectStatus_fields countAvailable_eq length_filter_sort_key)
  have quorum: "stClusterQuorum (clStatus ?c) = \<lceil>real_of_int (stClusterSize (clStatus ?c)) / 2\<rceil>"
    by (simp add: projectStatus_fields quorumOf_def)
  have ready: "stAvailableServers (clStatus ?c) = int (length (filter IsPodReady instances))"
    by (simp add: projectStatus_fields countReady_eq length_filter_sort_key)
  have avail: "stAvailable (clStatus ?c) \<longleftrightarrow>
        stAvailableServers (clStatus ?c) \<ge> stClusterQuorum (clStatus ?c) \<and>
        stAvailableServers (clStatus ?c) > 0"
    by (simp add: projectStatus_fields)
  have table: "map quorumOf [0, 1, 2, 3, 4, 5] = [0, 1, 1, 2, 2, 3]"
    by (simp add: quorumOf_div)
  from r size quorum ready avail table show ?thesis
    by (intro exI[of _ r] exI[of _ ?c] conjI)
qed


theorem Reconcile_status_projection_witness:
  "envGet (storeOf (clusterC 5 freshStatus) (Inr fiveMembers) (Inr fivePods)) ''ns'' ''c''
     = Inr (clusterC 5 freshStatus) \<and>
   envListServers (storeOf (clusterC 5 freshStatus) (Inr fiveMembers) (Inr fivePods))
     (clNamespace (clusterC 5 freshStatus)) (clName (clusterC 5 freshStatus))
     = Inr fiveMembers \<and>
   envListPods (storeOf (clusterC 5 freshStatus) (Inr fiveMembers) (Inr fivePods))
     (clNamespace (clusterC 5 freshStatus)) (clName (clusterC 5 freshStatus))
     = Inr fivePods \<and>
   (\<exists>r cluster.
      Reconcile (storeOf (clusterC 5 freshStatus) (Inr fiveMembers) (Inr fivePods))
        (''ns'', ''c'') = Some r \<and>
      resCluster r = Some cluster \<and>
      stClusterSize (clStatus cluster) = 5 \<and> stClusterQuorum (clStatus cluster) = 3 \<and>
      stAvailableServers (clStatus cluster) = 4 \<and> stAvailable (clStatus cluster) \<and>
      resCalls r = [StatusUpdate cluster None])"
proof -
  let ?e = "storeOf (clusterC 5 freshStatus) (Inr fiveMembers) (Inr fivePods)"
  have g: "envGet ?e ''ns'' ''c'' = Inr (clusterC 5 freshStatus)"
    by (simp add: scenario_defs)
  have ls: "envListServers ?e (clNamespace (clusterC 5 freshStatus))
              (clName (clusterC 5 freshStatus)) = Inr fiveMembers"
    by (simp add: storeOf_def)
  have lp: "envListPods ?e (clNamespace (clusterC 5 freshStatus))
              (clName (clusterC 5 freshStatus)) = Inr fivePods"
    by (simp add: storeOf_def)
  from Reconcile_status_projection[OF g ls lp] obtain r cluster where
    r: "Reconcile ?e (''ns'', ''c'') = Some r" "resCluster r = Some cluster"
    and size: "stClusterSize (clStatus cluster) = int (length (filter IsAvailable fiveMembers))"
    and quorum: "stClusterQuorum (clStatus cluster) =
                   \<lceil>real_of_int (stClusterSize (clStatus cluster)) / 2\<rceil>"
    and ready: "stAvailableServers (clStatus cluster) = int (length (filter IsPodReady fivePods))"
    and avail: "stAvailable (clStatus cluster) \<longleftrightarrow>
        stAvailableServers (clStatus cluster) \<ge> stClusterQuorum (clStatus cluster) \<and>
        stAvailableServers (clStatus cluster) > 0"
    and wr: "clStatus cluster \<noteq> clStatus (clusterC 5 freshStatus) \<longrightarrow>
        resCalls r = [StatusUpdate cluster (envStatusUpdate ?e [] cluster)]"
    by blast
  from size have s5: "stClusterSize (clStatus cluster) = 5"
    by (simp add: eval_defs scenario_defs)
  with quorum have q3: "stClusterQuorum (clStatus cluster) = 3" by simp
  from ready have a4: "stAvailableServers (clStatus cluster) = 4"
    by (simp add: eval_defs scenario_defs)
  from avail q3 a4 have av: "stAvailable (clStatus cluster)" by simp
  from s5 have "clStatus cluster \<noteq> clStatus (clusterC 5 freshStatus)"
    by (auto simp: scenario_defs)
  with wr have w: "resCalls r = [StatusUpdate cluster None]"
    by (simp add: storeOf_def)
  from g ls lp r s5 q3 a4 av w show ?thesis by blast
qed

text \<open>
  Claim C3, as amended. When the ClusterID of the cluster status is null the target
  member count is exactly 1, whatever spec.replicas is; otherwise it is spec.replicas
  with 0 raised to 1, which is max(replicas, 1) for a replica count that is not
  negative. In a cycle with a null ClusterID and no observed member: when the
  projection leaves the fetched status as it is, the cycle reaches the scale-up step
  and hands exactly one member to \<^verbatim>\<open>CreateOrUpdate\<close>, the one named
  \<open>cluster-0\<close>, whatever spec.replicas is; when the projection changes the status, the
  cycle returns before the scale-up step and creates no member.
\<close>

theorem bootstrap_single_member:
  "(stClusterID (clStatus cluster) = None \<longrightarrow> targetServers cluster = 1) \<and>
   (stClusterID (clStatus cluster) \<noteq> None \<and> 0 \<le> clReplicas (clSpec cluster) \<longrightarrow>
      targetServers cluster = max (clReplicas (clSpec cluster)) 1) \<and>
   (envGet e ns n = Inr fetched \<and>
    envListServers e (clNamespace fetched) (clName fetched) = Inr [] \<and>
    envListPods e (clNamespace fetched) (clName fetched) = Inr instances \<and>
    stClusterID (clStatus fetched) = None \<and>
    clStatus (projectStatus (UnsetFailed fetched) [] (sort_key podName instances))
      = clStatus fetched \<longrightarrow>
      (\<exists>r res. Reconcile e (ns, n) = Some r \<and>
         filter isMemberCall (resCalls r) =
           [CreateOrUpdateServer
              (serverApply fetched (serverShell fetched (clName fetched @ ''-0'')) []) res])) \<and>
   (stClusterID (clStatus cluster) \<noteq> None \<longrightarrow>
      targetServers cluster =
        (if clReplicas (clSpec cluster) = 0 then 1 else clReplicas (clSpec cluster))) \<and>
   (envGet e ns n = Inr fetched \<and>
    envListServers e (clNamespace fetched) (clName fetched) = Inr [] \<and>
    envListPods e (clNamespace fetched) (clName fetched) = Inr instances \<and>
    stClusterID (clStatus fetched) = None \<and>
    clStatus (projectStatus (UnsetFailed fetched) [] (sort_key podName instances))
      \<noteq> clStatus fetched \<longrightarrow>
      (\<exists>r. Reconcile e (ns, n) = Some r \<and> filter isMemberCall (resCalls r) = []))"
proof -
  have t4: "stClusterID (clStatus cluster) \<noteq> None \<longrightarrow>
      targetServers cluster =
        (if clReplicas (clSpec cluster) = 0 then 1 else clReplicas (clSpec cluster))"
    by (auto simp: targetServers_def Let_def)
  have early: "\<exists>r. Reconcile e (ns, n) = Some r \<and> filter isMemberCall (resCalls r) = []"
    if get: "envGet e ns n = Inr fetched"
      and ls: "envListServers e (clNamespace fetched) (clName fetched) = Inr []"
      and lp: "envListPods e (clNamespace fetched) (clName fetched) = Inr instances"
      and changed: "clStatus (projectStatus (UnsetFailed fetched) [] (sort_key podName instances))
                   \<noteq> clStatus fetched"
  proof -
    from getServers_ok[OF ls] have gs: "getServers e fetched = Inr []" by simp
    from Reconcile_changed[OF get gs getServerPods_ok[OF lp] changed] changed
    show ?thesis by (simp add: deferred_calls)
  qed
  have t1: "stClusterID (clStatus cluster) = None \<longrightarrow> targetServers cluster = 1"
    by (simp add: targetServers_def Let_def)
  have t2: "stClusterID (clStatus cluster) \<noteq> None \<and> 0 \<le> clReplicas (clSpec cluster) \<longrightarrow>
      targetServers cluster = max (clReplicas (clSpec cluster)) 1"
    by (auto simp: targetServers_def Let_def)
  have cycle: "\<exists>r res. Reconcile e (ns, n) = Some r \<and>
         filter isMemberCall (resCalls r) =
           [CreateOrUpdateServer
              (serverApply fetched (serverShell fetched (clName fetched @ ''-0'')) []) res]"
    if get: "envGet e ns n = Inr fetched"
      and ls: "envListServers e (clNamespace fetched) (clName fetched) = Inr []"
      and lp: "envListPods e (clNamespace fetched) (clName fetched) = Inr instances"
      and null: "stClusterID (clStatus fetched) = None"
      and same: "clStatus (projectStatus (UnsetFailed fetched) [] (sort_key podName instances))
                   = clStatus fetched"
  proof -
    let ?pods = "sort_key podName instances"
    from getServers_ok[OF ls] have gs: "getServers e fetched = Inr []" by simp
    note gp = getServerPods_ok[OF lp]
    note eq = projectStatus_unchanged_eq[OF same]
    have target: "targetServers fetched = 1"
      using null by (simp add: targetServers_def Let_def)
    have "nextServerName fetched (findServer []) = Some (clName fetched @ ''-0'')"
      by (simp add: nextServerName_def nextServerNameFrom.simps serverNameAt_def
          showNat.simps digitChar_def)
    with Reconcile_unchanged_calls[OF get gs gp same] obtain err mc pc where
      rec: "Reconcile e (ns, n) = Some \<lparr>resErr = err, resCalls = mc @ pc,
               resCluster = Some fetched\<rparr>"
      and mc: "\<forall>x\<in>set mc. \<exists>r. x = CreateOrUpdateServer
                 (serverApply fetched (serverShell fetched (clName fetched @ ''-0'')) []) r"
      and len: "length mc \<le> 1" and ne: "mc \<noteq> []"
      and pc: "\<forall>x\<in>set pc. isPodCall x"
      unfolding eq by (auto simp: target)
    from len ne obtain x where x: "mc = [x]" by (cases mc) auto
    with mc obtain res where res: "x = CreateOrUpdateServer
        (serverApply fetched (serverShell fetched (clName fetched @ ''-0'')) []) res" by auto
    from pc have "filter isMemberCall pc = []"
    proof (induction pc)
      case Nil
      then show ?case by simp
    next
      case (Cons c cs)
      then show ?case by (cases c) auto
    qed
    with x res have "filter isMemberCall (mc @ pc) =
        [CreateOrUpdateServer
           (serverApply fetched (serverShell fetched (clName fetched @ ''-0'')) []) res]"
      by simp
    with rec show ?thesis by auto
  qed
  from t1 t2 cycle t4 early show ?thesis by blast
qed

theorem bootstrap_single_member_witness:
  "stClusterID (clStatus (clusterC 5 freshStatus)) = None \<and>
   targetServers (clusterC 5 freshStatus) = 1 \<and>
   stClusterID (clStatus (clusterC 5 oneStatus)) \<noteq> None \<and>
   0 \<le> clReplicas (clSpec (clusterC 5 oneStatus)) \<and>
   targetServers (clusterC 5 oneStatus) = 5 \<and>
   targetServers (clusterC 0 oneStatus) = 1 \<and>
   envGet (storeOf (clusterC 5 freshStatus) (Inr []) (Inr [])) ''ns'' ''c''
     = Inr (clusterC 5 freshStatus) \<and>
   clStatus (projectStatus (UnsetFailed (clusterC 5 freshStatus)) [] (sort_key podName []))
     = clStatus (clusterC 5 freshStatus) \<and>
   (\<exists>r. Reconcile (storeOf (clusterC 5 freshStatus) (Inr []) (Inr [])) (''ns'', ''c'') = Some r \<and>
      filter isMemberCall (resCalls r) =
        [CreateOrUpdateServer
           (serverApply (clusterC 5 freshStatus) (serverShell (clusterC 5 freshStatus) ''c-0'') [])
           None]) \<and>
   stClusterID (clStatus (clusterC (- 1) oneStatus)) \<noteq> None \<and>
   targetServers (clusterC (- 1) oneStatus) = - 1 \<and>
   envGet (storeOf (clusterC 5 staleStatus) (Inr []) (Inr [])) ''ns'' ''c''
     = Inr (clusterC 5 staleStatus) \<and>
   stClusterID (clStatus (clusterC 5 staleStatus)) = None \<and>
   clStatus (projectStatus (UnsetFailed (clusterC 5 staleStatus)) [] (sort_key podName []))
     \<noteq> clStatus (clusterC 5 staleStatus) \<and>
   (\<exists>r. Reconcile (storeOf (clusterC 5 staleStatus) (Inr []) (Inr [])) (''ns'', ''c'') = Some r \<and>
      filter isMemberCall (resCalls r) = [])"
proof -
  let ?c = "clusterC 5 freshStatus"
  let ?e = "storeOf ?c (Inr []) (Inr [])"
  note inst = bootstrap_single_member[where e = ?e and ns = "''ns''" and n = "''c''"
      and fetched = ?c and instances = "[]"]
  have null: "stClusterID (clStatus ?c) = None" by (simp add: scenario_defs)
  from inst[of ?c] null have t1: "targetServers ?c = 1" by blast
  have set: "stClusterID (clStatus (clusterC 5 oneStatus)) \<noteq> None"
    and pos: "0 \<le> clReplicas (clSpec (clusterC 5 oneStatus))"
    by (simp_all add: scenario_defs)
  from inst[of "clusterC 5 oneStatus"] set pos
  have "targetServers (clusterC 5 oneStatus) = max (clReplicas (clSpec (clusterC 5 oneStatus))) 1"
    by blast
  then have t5: "targetServers (clusterC 5 oneStatus) = 5" by (simp add: scenario_defs)
  have set0: "stClusterID (clStatus (clusterC 0 oneStatus)) \<noteq> None"
    and pos0: "0 \<le> clReplicas (clSpec (clusterC 0 oneStatus))"
    by (simp_all add: scenario_defs)
  from inst[of "clusterC 0 oneStatus"] set0 pos0
  have "targetServers (clusterC 0 oneStatus) = max (clReplicas (clSpec (clusterC 0 oneStatus))) 1"
    by blast
  then have t0: "targetServers (clusterC 0 oneStatus) = 1" by (simp add: scenario_defs)
  have g: "envGet ?e ''ns'' ''c'' = Inr ?c" by (simp add: scenario_defs)
  have ls: "envListServers ?e (clNamespace ?c) (clName ?c) = Inr []" by (simp add: storeOf_def)
  have lp: "envListPods ?e (clNamespace ?c) (clName ?c) = Inr []" by (simp add: storeOf_def)
  have same: "clStatus (projectStatus (UnsetFailed ?c) [] (sort_key podName [])) = clStatus ?c"
    by (simp add: cycle_defs scenario_defs)
  from inst[of ?c] g ls lp null same obtain r res where
    r: "Reconcile ?e (''ns'', ''c'') = Some r"
    and one: "filter isMemberCall (resCalls r) =
        [CreateOrUpdateServer (serverApply ?c (serverShell ?c (clName ?c @ ''-0'')) []) res]"
    by blast
  have run: "Reconcile ?e (''ns'', ''c'') =
      Some \<lparr>resErr = None,
        resCalls = [CreateOrUpdateServer (serverApply ?c (serverShell ?c ''c-0'') []) None],
        resCluster = Some ?c\<rparr>"
    by (simp add: cycle_defs eval_defs scenario_defs)
  with r one have "filter isMemberCall (resCalls r) =
        [CreateOrUpdateServer (serverApply ?c (serverShell ?c ''c-0'') []) None]"
    by auto
  then have created: "\<exists>r. Reconcile ?e (''ns'', ''c'') = Some r \<and>
      filter isMemberCall (resCalls r) =
        [CreateOrUpdateServer (serverApply ?c (serverShell ?c ''c-0'') []) None]"
    using r by blast
  have setn: "stClusterID (clStatus (clusterC (- 1) oneStatus)) \<noteq> None"
    by (simp add: scenario_defs)
  from inst[of "clusterC (- 1) oneStatus"] setn
  have "targetServers (clusterC (- 1) oneStatus) =
      (if clReplicas (clSpec (clusterC (- 1) oneStatus)) = 0 then 1
       else clReplicas (clSpec (clusterC (- 1) oneStatus)))" by blast
  then have tn: "targetServers (clusterC (- 1) oneStatus) = - 1" by (simp add: scenario_defs)
  let ?s = "clusterC 5 staleStatus"
  let ?es = "storeOf ?s (Inr []) (Inr [])"
  have gs: "envGet ?es ''ns'' ''c'' = Inr ?s" by (simp add: scenario_defs)
  have lss: "envListServers ?es (clNamespace ?s) (clName ?s) = Inr []" by (simp add: storeOf_def)
  have lps: "envListPods ?es (clNamespace ?s) (clName ?s) = Inr []" by (simp add: storeOf_def)
  have nulls: "stClusterID (clStatus ?s) = None" by (simp add: scenario_defs)
  have changed: "clStatus (projectStatus (UnsetFailed ?s) [] (sort_key podName [])) \<noteq> clStatus ?s"
    by (simp add: cycle_defs scenario_defs)
  from bootstrap_single_member[where e = ?es and ns = "''ns''" and n = "''c''"
      and fetched = ?s and instances = "[]" and cluster = ?s] gs lss lps nulls changed
  have none: "\<exists>r. Reconcile ?es (''ns'', ''c'') = Some r \<and> filter isMemberCall (resCalls r) = []"
    by blast
  from null t1 set pos t5 t0 g same created setn tn gs nulls changed none show ?thesis
    by (intro conjI)
qed

text \<open>
  Claim C3 as stated fails at two inputs. With replicas 5, a null ClusterID, no member
  and a stored Failed condition, the projection unsets the condition, the status has
  changed and the cycle returns after saving it: no member is created in that cycle.
  With a ClusterID and replicas - 1 the target is - 1, not max(replicas, 1) = 1, and a
  cycle without members creates none.
\<close>

theorem bootstrap_single_member_counterexample:
  "stClusterID (clStatus (clusterC 5 staleStatus)) = None \<and>
   clReplicas (clSpec (clusterC 5 staleStatus)) = 5 \<and>
   envListServers (storeOf (clusterC 5 staleStatus) (Inr []) (Inr [])) ''ns'' ''c'' = Inr [] \<and>
   Reconcile (storeOf (clusterC 5 staleStatus) (Inr []) (Inr [])) (''ns'', ''c'') =
     Some \<lparr>resErr = None, resCalls = [StatusUpdate (clusterC 5 freshStatus) None],
           resCluster = Some (clusterC 5 freshStatus)\<rparr> \<and>
   filter isMemberCall [StatusUpdate (clusterC 5 freshStatus) None] = [] \<and>
   stClusterID (clStatus (clusterC (- 1) seededStatus)) = Some ''x'' \<and>
   targetServers (clusterC (- 1) seededStatus) = - 1 \<and>
   targetServers (clusterC (- 1) seededStatus)
     \<noteq> max (clReplicas (clSpec (clusterC (- 1) seededStatus))) 1 \<and>
   Reconcile (storeOf (clusterC (- 1) seededStatus) (Inr []) (Inr [])) (''ns'', ''c'') =
     Some \<lparr>resErr = None, resCalls = [], resCluster = Some (clusterC (- 1) seededStatus)\<rparr>"
  by (simp add: cycle_defs eval_defs scenario_defs)

text \<open>
  Claim C4. Let \<open>cid\<close> be the ClusterID of the cluster: the one in the fetched status,
  or, when that is null, the one the ClusterID loop adopts from the first member in name
  order that reports one. When an observed member reports another, non-null ClusterID,
  the cycle leaves the Failed condition set with the reason Inconsistent: the iteration
  of the ClusterID loop for that member sets a message that names the member, its
  ClusterID and the expected one, and the condition at the end of the cycle carries the
  message of the last such member in name order (that member itself when it is the only
  one). The ClusterID loop runs after the loop over the failed members, so a Bootstrap
  failure set there in the same cycle is overwritten.
\<close>

theorem clusterID_conflict_sets_failed:assumes get: "envGet e ns n = Inr fetched"
    and ls: "envListServers e (clNamespace fetched) (clName fetched) = Inr members"
    and lp: "envListPods e (clNamespace fetched) (clName fetched) = Inr instances"
    and cid: "stClusterID (clStatus fetched) = Some cid \<or>
       (stClusterID (clStatus fetched) = None \<and> sort_key srvName members = pre @ s # post \<and>
        (\<forall>x\<in>set pre. srvClusterID (srvStatus x) = None) \<and>
        srvClusterID (srvStatus s) = Some cid)"
    and m: "m \<in> set members" "srvClusterID (srvStatus m) = Some sid" "sid \<noteq> cid"
  shows "\<exists>r cluster bad. Reconcile e (ns, n) = Some r \<and> resCluster r = Some cluster \<and>
     bad = filter (conflicting cid) (sort_key srvName members) \<and> m \<in> set bad \<and>
     stFailed (clStatus cluster) =
       Some (OVSDBClusterInconsistent,
             inconsistentMsg (srvName (last bad)) (the (srvClusterID (srvStatus (last bad)))) cid) \<and>
     (bad = [m] \<longrightarrow> stFailed (clStatus cluster) =
        Some (OVSDBClusterInconsistent, inconsistentMsg (srvName m) sid cid)) \<and>
     (\<forall>c. stClusterID (clStatus c) = Some cid \<longrightarrow>
        stFailed (clStatus (clusterIDStep c m)) =
          Some (OVSDBClusterInconsistent, inconsistentMsg (srvName m) sid cid)) \<and>
     ((\<exists>x\<in>set members. IsFailed x) \<longrightarrow>
        (\<exists>msg. stFailed (clStatus (failedLoop (sort_key srvName members)
                   (setAvailability (UnsetFailed fetched) (sort_key srvName members)
                      (sort_key podName instances)))) = Some (OVSDBClusterBootstrap, msg)))"
proof -
  let ?servers = "sort_key srvName members"
  let ?pods = "sort_key podName instances"
  let ?c = "projectStatus (UnsetFailed fetched) ?servers ?pods"
  let ?bad = "filter (conflicting cid) ?servers"
  from Reconcile_lists_ok[OF get getServers_ok[OF ls] getServerPods_ok[OF lp]]
  obtain r where r: "Reconcile e (ns, n) = Some r" "resCluster r = Some ?c" by blast
  from m have conf: "conflicting cid m" by (simp add: conflicting_def)
  with m(1) have mem: "m \<in> set ?bad" by simp
  then obtain b bs where bad: "?bad = b # bs" by (cases ?bad) auto
  with projectStatus_id_failed[OF cid, of ?pods]
  have final: "stFailed (clStatus ?c) =
       Some (OVSDBClusterInconsistent,
             inconsistentMsg (srvName (last ?bad))
               (the (srvClusterID (srvStatus (last ?bad)))) cid)"
    by simp
  have only: "?bad = [m] \<longrightarrow> stFailed (clStatus ?c) =
        Some (OVSDBClusterInconsistent, inconsistentMsg (srvName m) sid cid)"
    using final m(2) by simp
  have step: "\<forall>c. stClusterID (clStatus c) = Some cid \<longrightarrow>
        stFailed (clStatus (clusterIDStep c m)) =
          Some (OVSDBClusterInconsistent, inconsistentMsg (srvName m) sid cid)"
    using conf m(2) by (simp add: clusterIDStep_failed)
  have boot: "(\<exists>x\<in>set members. IsFailed x) \<longrightarrow>
        (\<exists>msg. stFailed (clStatus (failedLoop ?servers
                   (setAvailability (UnsetFailed fetched) ?servers ?pods))) =
                 Some (OVSDBClusterBootstrap, msg))"
  proof
    assume "\<exists>x\<in>set members. IsFailed x"
    then obtain x where "x \<in> set ?servers" "IsFailed x" by auto
    then have "x \<in> set (filter IsFailed ?servers)" by simp
    then obtain f fs where "filter IsFailed ?servers = f # fs"
      by (cases "filter IsFailed ?servers") auto
    then show "\<exists>msg. stFailed (clStatus (failedLoop ?servers
                   (setAvailability (UnsetFailed fetched) ?servers ?pods))) =
                 Some (OVSDBClusterBootstrap, msg)"
      by (simp add: failedLoop_failed)
  qed
  from r mem final only step boot show ?thesis
    by (intro exI[of _ r] exI[of _ ?c] exI[of _ ?bad] conjI refl)
qed

theorem clusterID_conflict_sets_failed_witness:
  "envGet (storeOf (clusterC 3 oneStatus)
       (Inr [member ''c-0'' True True (Some ''x'') None,
             member ''c-1'' True False (Some ''y'') None]) (Inr [])) ''ns'' ''c''
     = Inr (clusterC 3 oneStatus) \<and>
   stClusterID (clStatus (clusterC 3 oneStatus)) = Some ''x'' \<and>
   srvClusterID (srvStatus (member ''c-1'' True False (Some ''y'') None)) = Some ''y'' \<and>
   ''y'' \<noteq> ''x'' \<and>
   IsFailed (member ''c-0'' True True (Some ''x'') None) \<and>
   stFailed (clStatus (failedLoop
       [member ''c-0'' True True (Some ''x'') None, member ''c-1'' True False (Some ''y'') None]
       (setAvailability (UnsetFailed (clusterC 3 oneStatus))
          [member ''c-0'' True True (Some ''x'') None,
           member ''c-1'' True False (Some ''y'') None] [])))
     = Some (OVSDBClusterBootstrap, ''The following servers have failed to intialize: c-0'') \<and>
   (\<exists>r cluster.
      Reconcile (storeOf (clusterC 3 oneStatus)
         (Inr [member ''c-0'' True True (Some ''x'') None,
               member ''c-1'' True False (Some ''y'') None]) (Inr [])) (''ns'', ''c'') = Some r \<and>
      resCluster r = Some cluster \<and>
      stFailed (clStatus cluster) =
        Some (OVSDBClusterInconsistent,
              ''Server c-1 has inconsistent ClusterID y. Expected ClusterID x'')) \<and>
   stClusterID (clStatus (clusterC 3 freshStatus)) = None \<and>
   (\<exists>r cluster.
      Reconcile (storeOf (clusterC 3 freshStatus)
         (Inr [member ''c-1'' True False (Some ''y'') None,
               member ''c-0'' True True (Some ''x'') None]) (Inr [])) (''ns'', ''c'') = Some r \<and>
      resCluster r = Some cluster \<and>
      stFailed (clStatus cluster) =
        Some (OVSDBClusterInconsistent,
              ''Server c-1 has inconsistent ClusterID y. Expected ClusterID x''))"
proof -
  let ?c = "clusterC 3 oneStatus"
  let ?m0 = "member ''c-0'' True True (Some ''x'') None"
  let ?m1 = "member ''c-1'' True False (Some ''y'') None"
  let ?e = "storeOf ?c (Inr [?m0, ?m1]) (Inr [])"
  have g: "envGet ?e ''ns'' ''c'' = Inr ?c" by (simp add: scenario_defs)
  have ls: "envListServers ?e (clNamespace ?c) (clName ?c) = Inr [?m0, ?m1]"
    by (simp add: storeOf_def)
  have lp: "envListPods ?e (clNamespace ?c) (clName ?c) = Inr []" by (simp add: storeOf_def)
  have cid: "stClusterID (clStatus ?c) = Some ''x''" by (simp add: scenario_defs)
  then have cid': "stClusterID (clStatus ?c) = Some ''x'' \<or>
       (stClusterID (clStatus ?c) = None \<and> sort_key srvName [?m0, ?m1] = [] @ ?m0 # [?m1] \<and>
        (\<forall>x\<in>set []. srvClusterID (srvStatus x) = None) \<and>
        srvClusterID (srvStatus ?m0) = Some ''x'')" by simp
  have m: "?m1 \<in> set [?m0, ?m1]" by simp
  have sid: "srvClusterID (srvStatus ?m1) = Some ''y''" by (simp add: member_def)
  have ne: "''y'' \<noteq> ''x''" by simp
  have f0: "IsFailed ?m0" by (simp add: eval_defs member_def)
  have sorted: "sort_key srvName [?m0, ?m1] = [?m0, ?m1]" by (simp add: member_def)
  have bad: "filter (conflicting ''x'') [?m0, ?m1] = [?m1]"
    by (simp add: conflicting_def member_def)
  have boot: "stFailed (clStatus (failedLoop [?m0, ?m1]
       (setAvailability (UnsetFailed ?c) [?m0, ?m1] [])))
     = Some (OVSDBClusterBootstrap, ''The following servers have failed to intialize: c-0'')"
    by (simp add: cycle_defs eval_defs bootstrapMsg_def scenario_defs)
  from clusterID_conflict_sets_failed[OF g ls lp cid' m sid ne] obtain r cluster where
    r: "Reconcile ?e (''ns'', ''c'') = Some r" "resCluster r = Some cluster"
    and only: "filter (conflicting ''x'') (sort_key srvName [?m0, ?m1]) = [?m1] \<longrightarrow>
        stFailed (clStatus cluster) =
          Some (OVSDBClusterInconsistent, inconsistentMsg (srvName ?m1) ''y'' ''x'')"
    by blast
  from only sorted bad have "stFailed (clStatus cluster) =
      Some (OVSDBClusterInconsistent, inconsistentMsg (srvName ?m1) ''y'' ''x'')" by simp
  then have final: "stFailed (clStatus cluster) =
        Some (OVSDBClusterInconsistent,
              ''Server c-1 has inconsistent ClusterID y. Expected ClusterID x'')"
    by (simp add: inconsistentMsg_def member_def)
  let ?c2 = "clusterC 3 freshStatus"
  let ?e2 = "storeOf ?c2 (Inr [?m1, ?m0]) (Inr [])"
  have g2: "envGet ?e2 ''ns'' ''c'' = Inr ?c2" by (simp add: scenario_defs)
  have ls2: "envListServers ?e2 (clNamespace ?c2) (clName ?c2) = Inr [?m1, ?m0]"
    by (simp add: storeOf_def)
  have lp2: "envListPods ?e2 (clNamespace ?c2) (clName ?c2) = Inr []" by (simp add: storeOf_def)
  have null: "stClusterID (clStatus ?c2) = None" by (simp add: scenario_defs)
  have sorted2: "sort_key srvName [?m1, ?m0] = [?m0, ?m1]" by (simp add: member_def)
  have cid2: "stClusterID (clStatus ?c2) = Some ''x'' \<or>
       (stClusterID (clStatus ?c2) = None \<and> sort_key srvName [?m1, ?m0] = [] @ ?m0 # [?m1] \<and>
        (\<forall>x\<in>set []. srvClusterID (srvStatus x) = None) \<and>
        srvClusterID (srvStatus ?m0) = Some ''x'')"
    using null sorted2 by (simp add: member_def)
  have m2: "?m1 \<in> set [?m1, ?m0]" by simp
  from clusterID_conflict_sets_failed[OF g2 ls2 lp2 cid2 m2 sid ne] obtain r2 cluster2 where
    r2: "Reconcile ?e2 (''ns'', ''c'') = Some r2" "resCluster r2 = Some cluster2"
    and only2: "filter (conflicting ''x'') (sort_key srvName [?m1, ?m0]) = [?m1] \<longrightarrow>
        stFailed (clStatus cluster2) =
          Some (OVSDBClusterInconsistent, inconsistentMsg (srvName ?m1) ''y'' ''x'')"
    by blast
  from only2 sorted2 bad have "stFailed (clStatus cluster2) =
      Some (OVSDBClusterInconsistent, inconsistentMsg (srvName ?m1) ''y'' ''x'')" by simp
  then have final2: "stFailed (clStatus cluster2) =
        Some (OVSDBClusterInconsistent,
              ''Server c-1 has inconsistent ClusterID y. Expected ClusterID x'')"
    by (simp add: inconsistentMsg_def member_def)
  from g cid sid ne f0 boot r final null r2 final2 show ?thesis by blast
qed

text \<open>
  Claim C5. The Failed condition is unset at the start of the cycle and set when a
  member reports failed, with a message meant to list all failed members. The slice of
  failed names is declared inside the loop body, so the message of each iteration holds
  one name and the last failed member's message stays: with the two failed members
  \<open>c-0\<close> and \<open>c-1\<close> the cycle leaves the message naming \<open>c-1\<close> alone, not
  \<open>c-0, c-1\<close>.
\<close>

theorem failed_message_names_only_last_member:"\<exists>r cluster.
     Reconcile (storeOf (clusterC 3 freshStatus)
        (Inr [member ''c-0'' False True None None, member ''c-1'' False True None None])
        (Inr [])) (''ns'', ''c'') = Some r \<and>
     resCluster r = Some cluster \<and>
     stFailed (clStatus cluster) =
       Some (OVSDBClusterBootstrap, ''The following servers have failed to intialize: c-1'') \<and>
     stFailed (clStatus cluster) \<noteq> Some (OVSDBClusterBootstrap, bootstrapMsg [''c-0'', ''c-1'']) \<and>
     bootstrapMsg [''c-0'', ''c-1''] = ''The following servers have failed to intialize: c-0, c-1''"
proof -
  let ?c = "clusterC 3 freshStatus"
  let ?ms = "[member ''c-0'' False True None None, member ''c-1'' False True None None]"
  let ?e = "storeOf ?c (Inr ?ms) (Inr [])"
  have g: "envGet ?e ''ns'' ''c'' = Inr ?c" by (simp add: scenario_defs)
  have ls: "getServers ?e ?c = Inr ?ms" by (simp add: getServers_def scenario_defs)
  have lp: "getServerPods ?e ?c = Inr []" by (simp add: getServerPods_def scenario_defs)
  from Reconcile_lists_ok[OF g ls lp] obtain r where
    r: "Reconcile ?e (''ns'', ''c'') = Some r"
       "resCluster r = Some (projectStatus (UnsetFailed ?c) ?ms [])" by blast
  have "stFailed (clStatus (projectStatus (UnsetFailed ?c) ?ms [])) =
      Some (OVSDBClusterBootstrap, ''The following servers have failed to intialize: c-1'')"
    by (simp add: cycle_defs eval_defs bootstrapMsg_def scenario_defs)
  moreover have "bootstrapMsg [''c-0'', ''c-1''] =
      ''The following servers have failed to intialize: c-0, c-1''"
    by (simp add: bootstrapMsg_def)
  ultimately show ?thesis using r by auto
qed

text \<open>
  Claim C6. When the status that the projection leaves differs from the snapshot taken
  at the start of the cycle, the cycle returns right after the projection: the only call
  it makes is the deferred status update, so no member is created or updated and no pod
  is created, replaced or deleted in that pass.
\<close>

theorem Reconcile_early_exit:
  assumes get: "envGet e ns n = Inr fetched"
    and ls: "envListServers e (clNamespace fetched) (clName fetched) = Inr members"
    and lp: "envListPods e (clNamespace fetched) (clName fetched) = Inr instances"
    and changed: "clStatus (projectStatus (UnsetFailed fetched) (sort_key srvName members)
                    (sort_key podName instances)) \<noteq> clStatus fetched"
  shows "\<exists>r cluster. Reconcile e (ns, n) = Some r \<and>
     cluster = projectStatus (UnsetFailed fetched) (sort_key srvName members)
                 (sort_key podName instances) \<and>
     resCalls r = [StatusUpdate cluster (envStatusUpdate e [] cluster)] \<and>
     filter isMemberCall (resCalls r) = [] \<and> filter isPodCall (resCalls r) = []"
  using Reconcile_changed[OF get getServers_ok[OF ls] getServerPods_ok[OF lp] changed] changed
  by (simp add: deferred_calls)

theorem Reconcile_early_exit_witness:
  "envGet (storeOf (clusterC 3 freshStatus)
       (Inr [member ''c-0'' True False (Some ''x'') None]) (Inr [])) ''ns'' ''c''
     = Inr (clusterC 3 freshStatus) \<and>
   clStatus (projectStatus (UnsetFailed (clusterC 3 freshStatus))
      (sort_key srvName [member ''c-0'' True False (Some ''x'') None]) (sort_key podName []))
     \<noteq> clStatus (clusterC 3 freshStatus) \<and>
   (\<exists>r. Reconcile (storeOf (clusterC 3 freshStatus)
            (Inr [member ''c-0'' True False (Some ''x'') None]) (Inr [])) (''ns'', ''c'')
          = Some r \<and>
        resCalls r =
          [StatusUpdate
             (clusterC 3 \<lparr>stClusterID = Some ''x'', stClusterSize = 1, stClusterQuorum = 1,
                stAvailableServers = 0, stAvailable = False, stFailed = None\<rparr>) None])"
proof -
  let ?ms = "[member ''c-0'' True False (Some ''x'') None]"
  let ?e = "storeOf (clusterC 3 freshStatus) (Inr ?ms) (Inr [])"
  have g: "envGet ?e ''ns'' ''c'' = Inr (clusterC 3 freshStatus)"
    by (simp add: scenario_defs)
  have ls: "envListServers ?e (clNamespace (clusterC 3 freshStatus))
              (clName (clusterC 3 freshStatus)) = Inr ?ms"
    by (simp add: storeOf_def)
  have lp: "envListPods ?e (clNamespace (clusterC 3 freshStatus))
              (clName (clusterC 3 freshStatus)) = Inr []"
    by (simp add: storeOf_def)
  have proj: "projectStatus (UnsetFailed (clusterC 3 freshStatus)) (sort_key srvName ?ms)
                (sort_key podName []) =
      clusterC 3 \<lparr>stClusterID = Some ''x'', stClusterSize = 1, stClusterQuorum = 1,
                stAvailableServers = 0, stAvailable = False, stFailed = None\<rparr>"
    by (simp add: projectStatus_def setAvailability_def UnsetFailed_def UnsetAvailable_def
        SetAvailable_def clusterIDStep_def quorumOf_div eval_defs scenario_defs)
  then have ch: "clStatus (projectStatus (UnsetFailed (clusterC 3 freshStatus))
      (sort_key srvName ?ms) (sort_key podName [])) \<noteq> clStatus (clusterC 3 freshStatus)"
    by (simp add: scenario_defs)
  from Reconcile_early_exit[OF g ls lp ch] proj
  have "\<exists>r. Reconcile ?e (''ns'', ''c'') = Some r \<and>
        resCalls r =
          [StatusUpdate
             (clusterC 3 \<lparr>stClusterID = Some ''x'', stClusterSize = 1, stClusterQuorum = 1,
                stAvailableServers = 0, stAvailable = False, stFailed = None\<rparr>) None]"
    by (auto simp: storeOf_def)
  with g ch show ?thesis by blast
qed

text \<open>
  Claim C7. The name synthesized for a new member is the first name of the sequence
  \<open>cluster-0\<close>, \<open>cluster-1\<close>, ... that no observed member carries: the naming
  loop returns, the name it returns belongs to no observed member, and every name of a
  smaller index belongs to one. With members \<open>c-0\<close> and \<open>c-2\<close> the name is \<open>c-1\<close>.
\<close>

theorem nextServerName_first_unused: 
  "\<exists>k. nextServerName cluster (findServer servers) = Some (clName cluster @ ''-'' @ showNat k) \<and>
       clName cluster @ ''-'' @ showNat k \<notin> srvName ` set servers \<and>
       (\<forall>j<k. clName cluster @ ''-'' @ showNat j \<in> srvName ` set servers)"
  using nextServerName_first_free[of servers cluster]
  by (auto simp: findServer_None serverNameAt_def)

theorem nextServerName_first_unused_witness:
  "nextServerName (clusterC 3 freshStatus)
     (findServer [member ''c-0'' True False None None, member ''c-2'' True False None None])
   = Some ''c-1''"
proof -
  let ?ss = "[member ''c-0'' True False None None, member ''c-2'' True False None None]"
  from nextServerName_first_unused[of "clusterC 3 freshStatus" ?ss] obtain k where
    res: "nextServerName (clusterC 3 freshStatus) (findServer ?ss) = Some (''c-'' @ showNat k)"
    and free: "''c-'' @ showNat k \<notin> srvName ` set ?ss"
    and below: "\<forall>j<k. ''c-'' @ showNat j \<in> srvName ` set ?ss"
    by (auto simp: clusterC_def)
  have "k \<noteq> 0"
  proof
    assume "k = 0"
    with free show False by (simp add: member_def showNat_digits)
  qed
  moreover have "\<not> 1 < k"
  proof
    assume "1 < k"
    with below have "''c-'' @ showNat 1 \<in> srvName ` set ?ss" by blast
    then show False by (simp add: member_def showNat_digits)
  qed
  ultimately have "k = 1" by simp
  with res show ?thesis by (simp add: showNat_digits)
qed

text \<open>
  Claim C8. The initPeers that \<^verbatim>\<open>serverApply\<close> writes into a member are the raft
  addresses, in the order of the observed list, of exactly the observed members that
  have another name than the member and report a raft address; the member itself and
  members without an address are left out. In a cycle every member handed to
  \<^verbatim>\<open>CreateOrUpdate\<close> carries a name that no observed member has, so the members
  observed in the cycle, created earlier, are not written again and gain no peers.
\<close>

theorem serverApply_init_peers:
  "specInitPeers (srvSpec (serverApply cluster server allServers)) =
     map (\<lambda>peer. the (srvRaftAddress (srvStatus peer)))
       (filter (\<lambda>peer. srvName peer \<noteq> srvName server \<and>
                        srvRaftAddress (srvStatus peer) \<noteq> None) allServers) \<and>
   srvName (serverApply cluster server allServers) = srvName server \<and>
   (envGet e ns n = Inr fetched \<and>
    envListServers e (clNamespace fetched) (clName fetched) = Inr members \<and>
    envListPods e (clNamespace fetched) (clName fetched) = Inr instances \<longrightarrow>
      (\<exists>r. Reconcile e (ns, n) = Some r \<and>
         (\<forall>srv res. CreateOrUpdateServer srv res \<in> set (resCalls r) \<longrightarrow>
            srvName srv \<notin> srvName ` set members \<and>
            specInitPeers (srvSpec srv) =
              map (\<lambda>peer. the (srvRaftAddress (srvStatus peer)))
                (filter (\<lambda>peer. srvName peer \<noteq> srvName srv \<and>
                                 srvRaftAddress (srvStatus peer) \<noteq> None)
                   (sort_key srvName members)))))"
proof -
  have peers: "specInitPeers (srvSpec (serverApply c s ss)) =
     map (\<lambda>peer. the (srvRaftAddress (srvStatus peer)))
       (filter (\<lambda>peer. srvName peer \<noteq> srvName s \<and>
                        srvRaftAddress (srvStatus peer) \<noteq> None) ss)" for c s ss
    by (simp add: serverApply_fields collectPeers_eq)
  have nm: "srvName (serverApply c s ss) = srvName s" for c s ss
    by (simp add: serverApply_fields)
  have cycle: "\<exists>r. Reconcile e (ns, n) = Some r \<and>
         (\<forall>srv res. CreateOrUpdateServer srv res \<in> set (resCalls r) \<longrightarrow>
            srvName srv \<notin> srvName ` set members \<and>
            specInitPeers (srvSpec srv) =
              map (\<lambda>peer. the (srvRaftAddress (srvStatus peer)))
                (filter (\<lambda>peer. srvName peer \<noteq> srvName srv \<and>
                                 srvRaftAddress (srvStatus peer) \<noteq> None)
                   (sort_key srvName members)))"
    if get: "envGet e ns n = Inr fetched"
      and ls: "envListServers e (clNamespace fetched) (clName fetched) = Inr members"
      and lp: "envListPods e (clNamespace fetched) (clName fetched) = Inr instances"
  proof -
    let ?servers = "sort_key srvName members"
    let ?pods = "sort_key podName instances"
    let ?c = "projectStatus (UnsetFailed fetched) ?servers ?pods"
    note gs = getServers_ok[OF ls] and gp = getServerPods_ok[OF lp]
    show ?thesis
    proof (cases "clStatus ?c = clStatus fetched")
      case False
      from Reconcile_changed[OF get gs gp False] False show ?thesis
        by (simp add: deferred_calls)
    next
      case True
      from Reconcile_unchanged_calls[OF get gs gp True] obtain err mc pc name where
        rec: "Reconcile e (ns, n) = Some \<lparr>resErr = err, resCalls = mc @ pc, resCluster = Some ?c\<rparr>"
        and name: "nextServerName fetched (findServer ?servers) = Some name"
        and mc: "\<forall>x\<in>set mc. \<exists>r. x = CreateOrUpdateServer
                   (serverApply ?c (serverShell ?c name) ?servers) r"
        and pc: "\<forall>x\<in>set pc. isPodCall x"
        by blast
      from nextServerName_unused[OF name] have fresh: "name \<notin> srvName ` set members" by simp
      define r where "r = \<lparr>resErr = err, resCalls = mc @ pc, resCluster = Some ?c\<rparr>"
      have calls: "resCalls r = mc @ pc" by (simp add: r_def)
      have "\<forall>srv res. CreateOrUpdateServer srv res \<in> set (resCalls r) \<longrightarrow>
            srvName srv \<notin> srvName ` set members \<and>
            specInitPeers (srvSpec srv) =
              map (\<lambda>peer. the (srvRaftAddress (srvStatus peer)))
                (filter (\<lambda>peer. srvName peer \<noteq> srvName srv \<and>
                                 srvRaftAddress (srvStatus peer) \<noteq> None) ?servers)"
        unfolding calls
      proof (intro allI impI)
        fix srv res
        assume that: "CreateOrUpdateServer srv res \<in> set (mc @ pc)"
        from that pc have "CreateOrUpdateServer srv res \<in> set mc" by auto
        with mc have srv: "srv = serverApply ?c (serverShell ?c name) ?servers" by auto
        have shell: "srvName (serverShell ?c name) = name" by (simp add: serverShell_def)
        have "srvName srv = name" unfolding srv by (simp add: nm shell)
        with fresh peers[of ?c "serverShell ?c name" ?servers] srv shell
        show "srvName srv \<notin> srvName ` set members \<and>
            specInitPeers (srvSpec srv) =
              map (\<lambda>peer. the (srvRaftAddress (srvStatus peer)))
                (filter (\<lambda>peer. srvName peer \<noteq> srvName srv \<and>
                                 srvRaftAddress (srvStatus peer) \<noteq> None) ?servers)"
          by simp
      qed
      moreover from rec have "Reconcile e (ns, n) = Some r" by (simp add: r_def)
      ultimately show ?thesis by blast
    qed
  qed
  from peers nm cycle show ?thesis by blast
qed


theorem serverApply_init_peers_witness:
  "envGet (oneStore 2) ''ns'' ''c'' = Inr (clusterC 2 oneStatus) \<and>
   envListServers (oneStore 2) (clNamespace (clusterC 2 oneStatus))
     (clName (clusterC 2 oneStatus)) = Inr [firstMember] \<and>
   envListPods (oneStore 2) (clNamespace (clusterC 2 oneStatus))
     (clName (clusterC 2 oneStatus)) = Inr [pod ''c-0'' True] \<and>
   Reconcile (oneStore 2) (''ns'', ''c'') =
     Some \<lparr>resErr = None,
       resCalls =
         [CreateOrUpdateServer
            (serverApply (clusterC 2 oneStatus) (serverShell (clusterC 2 oneStatus) ''c-1'')
               [firstMember]) None,
          CreateOrDeletePod (Some (pod ''c-0'' True)) firstMember (Inr ''updated'')],
       resCluster = Some (clusterC 2 oneStatus)\<rparr> \<and>
   srvName (serverApply (clusterC 2 oneStatus) (serverShell (clusterC 2 oneStatus) ''c-1'')
              [firstMember]) = ''c-1'' \<and>
   specInitPeers (srvSpec
       (serverApply (clusterC 2 oneStatus) (serverShell (clusterC 2 oneStatus) ''c-1'')
          [firstMember])) = [''tcp:10.0.0.1:6643''] \<and>
   specInitPeers (srvSpec (serverApply (clusterC 2 oneStatus) firstMember [firstMember])) = []"
proof -
  let ?c = "clusterC 2 oneStatus"
  let ?new = "serverApply ?c (serverShell ?c ''c-1'') [firstMember]"
  have g: "envGet (oneStore 2) ''ns'' ''c'' = Inr ?c" by (simp add: scenario_defs)
  have ls: "envListServers (oneStore 2) (clNamespace ?c) (clName ?c) = Inr [firstMember]"
    by (simp add: oneStore_def storeOf_def)
  have lp: "envListPods (oneStore 2) (clNamespace ?c) (clName ?c) = Inr [pod ''c-0'' True]"
    by (simp add: oneStore_def storeOf_def)
  have run: "Reconcile (oneStore 2) (''ns'', ''c'') =
     Some \<lparr>resErr = None,
       resCalls = [CreateOrUpdateServer ?new None,
          CreateOrDeletePod (Some (pod ''c-0'' True)) firstMember (Inr ''updated'')],
       resCluster = Some ?c\<rparr>"
    by (simp add: cycle_defs eval_defs scenario_defs)
  note inst = serverApply_init_peers[where e = "oneStore 2" and ns = "''ns''" and n = "''c''"
      and fetched = ?c and members = "[firstMember]" and instances = "[pod ''c-0'' True]"]
  from inst[of ?c "serverShell ?c ''c-1''" "[firstMember]"]
  have nm: "srvName ?new = ''c-1''" by (simp add: serverShell_def)
  from inst[of ?c firstMember "[firstMember]"]
  have old: "specInitPeers (srvSpec (serverApply ?c firstMember [firstMember])) = []"
    by simp
  from inst[of ?c firstMember "[firstMember]"] g ls lp obtain r where
    r: "Reconcile (oneStore 2) (''ns'', ''c'') = Some r"
    and all: "\<forall>srv res. CreateOrUpdateServer srv res \<in> set (resCalls r) \<longrightarrow>
            srvName srv \<notin> srvName ` set [firstMember] \<and>
            specInitPeers (srvSpec srv) =
              map (\<lambda>peer. the (srvRaftAddress (srvStatus peer)))
                (filter (\<lambda>peer. srvName peer \<noteq> srvName srv \<and>
                                 srvRaftAddress (srvStatus peer) \<noteq> None)
                   (sort_key srvName [firstMember]))"
    by blast
  from r run have "CreateOrUpdateServer ?new None \<in> set (resCalls r)" by auto
  with all have "specInitPeers (srvSpec ?new) =
              map (\<lambda>peer. the (srvRaftAddress (srvStatus peer)))
                (filter (\<lambda>peer. srvName peer \<noteq> srvName ?new \<and>
                                 srvRaftAddress (srvStatus peer) \<noteq> None)
                   (sort_key srvName [firstMember]))" by blast
  with nm have peers: "specInitPeers (srvSpec ?new) = [''tcp:10.0.0.1:6643'']"
    by (simp add: firstMember_def member_def)
  from g ls lp run nm peers old show ?thesis by simp
qed

text \<open>
  Claim C9. When listing the members fails, or listing the pods fails after the members
  were listed, the cycle returns that error (wrapped by the list helper) to the caller
  and acts on nothing: it makes no call on a member and no call on a pod. The only call
  it may make is the deferred update that saves the status with the Failed condition
  unset.
\<close>

theorem Reconcile_list_error_aborts:assumes get: "envGet e ns n = Inr fetched"
    and fail: "envListServers e (clNamespace fetched) (clName fetched) = Inl err \<or>
               (envListServers e (clNamespace fetched) (clName fetched) = Inr members \<and>
                envListPods e (clNamespace fetched) (clName fetched) = Inl err)"
  shows "\<exists>r what. Reconcile e (ns, n) = Some r \<and>
     resErr r = Some (ListError what (clName fetched) err) \<and>
     resCalls r =
       (if stFailed (clStatus fetched) \<noteq> None
        then [StatusUpdate (UnsetFailed fetched) (envStatusUpdate e [] (UnsetFailed fetched))]
        else []) \<and>
     filter isMemberCall (resCalls r) = [] \<and> filter isPodCall (resCalls r) = []"
proof -
  have neq: "clStatus (UnsetFailed fetched) \<noteq> clStatus fetched \<longleftrightarrow>
             stFailed (clStatus fetched) \<noteq> None"
  proof
    assume "clStatus (UnsetFailed fetched) \<noteq> clStatus fetched"
    then show "stFailed (clStatus fetched) \<noteq> None"
      by (cases "clStatus fetched") (auto simp: UnsetFailed_def)
  next
    assume a: "stFailed (clStatus fetched) \<noteq> None"
    have "stFailed (clStatus (UnsetFailed fetched)) = None" by (simp add: UnsetFailed_def)
    with a show "clStatus (UnsetFailed fetched) \<noteq> clStatus fetched" by metis
  qed
  from fail show ?thesis
  proof
    assume "envListServers e (clNamespace fetched) (clName fetched) = Inl err"
    then have "getServers e fetched = Inl (ListError ''servers'' (clName fetched) err)"
      by (simp add: getServers_def)
    from Reconcile_servers_failed[OF get this] neq show ?thesis
      by (auto simp: deferred_calls)
  next
    assume a: "envListServers e (clNamespace fetched) (clName fetched) = Inr members \<and>
               envListPods e (clNamespace fetched) (clName fetched) = Inl err"
    then have "getServerPods e fetched = Inl (ListError ''server pods'' (clName fetched) err)"
      by (simp add: getServerPods_def)
    from Reconcile_pods_failed[OF get getServers_ok this] a neq show ?thesis
      by (auto simp: deferred_calls)
  qed
qed


theorem Reconcile_list_error_aborts_witness:
  "envGet (storeOf (clusterC 3 (fiveStatus\<lparr>stFailed := Some (OVSDBClusterBootstrap, ''old'')\<rparr>))
       (Inl (StoreError ''timeout'')) (Inr fivePods)) ''ns'' ''c''
     = Inr (clusterC 3 (fiveStatus\<lparr>stFailed := Some (OVSDBClusterBootstrap, ''old'')\<rparr>)) \<and>
   envListServers
     (storeOf (clusterC 3 (fiveStatus\<lparr>stFailed := Some (OVSDBClusterBootstrap, ''old'')\<rparr>))
       (Inl (StoreError ''timeout'')) (Inr fivePods)) ''ns'' ''c''
     = Inl (StoreError ''timeout'') \<and>
   (\<exists>r what.
      Reconcile
        (storeOf (clusterC 3 (fiveStatus\<lparr>stFailed := Some (OVSDBClusterBootstrap, ''old'')\<rparr>))
           (Inl (StoreError ''timeout'')) (Inr fivePods)) (''ns'', ''c'') = Some r \<and>
      resErr r = Some (ListError what ''c'' (StoreError ''timeout'')) \<and>
      resCalls r = [StatusUpdate (clusterC 3 fiveStatus) None])"
proof -
  let ?c = "clusterC 3 (fiveStatus\<lparr>stFailed := Some (OVSDBClusterBootstrap, ''old'')\<rparr>)"
  let ?e = "storeOf ?c (Inl (StoreError ''timeout'')) (Inr fivePods)"
  have g: "envGet ?e ''ns'' ''c'' = Inr ?c" by (simp add: scenario_defs)
  have l: "envListServers ?e ''ns'' ''c'' = Inl (StoreError ''timeout'')"
    by (simp add: storeOf_def)
  then have l': "envListServers ?e (clNamespace ?c) (clName ?c) = Inl (StoreError ''timeout'') \<or>
      (envListServers ?e (clNamespace ?c) (clName ?c) = Inr [] \<and>
       envListPods ?e (clNamespace ?c) (clName ?c) = Inl (StoreError ''timeout''))"
    by (simp add: clusterC_def)
  have u: "UnsetFailed ?c = clusterC 3 fiveStatus"
    by (simp add: UnsetFailed_def scenario_defs)
  from Reconcile_list_error_aborts[OF g l'] obtain r what where
    r: "Reconcile ?e (''ns'', ''c'') = Some r"
    and err: "resErr r = Some (ListError what (clName ?c) (StoreError ''timeout''))"
    and calls: "resCalls r =
       (if stFailed (clStatus ?c) \<noteq> None
        then [StatusUpdate (UnsetFailed ?c) (envStatusUpdate ?e [] (UnsetFailed ?c))]
        else [])"
    by blast
  from err have err': "resErr r = Some (ListError what ''c'' (StoreError ''timeout''))"
    by (simp add: clusterC_def)
  from calls have calls': "resCalls r = [StatusUpdate (clusterC 3 fiveStatus) None]"
    unfolding u by (simp add: clusterC_def storeOf_def)
  from g l r err' calls' show ?thesis by blast
qed

text \<open>
  Claim C10. Every iteration of the scale-up loop names its member against the member
  list observed at the start of the cycle, which the loop never extends: all members
  that the loop hands to \<^verbatim>\<open>CreateOrUpdate\<close> carry the one name that
  \<^verbatim>\<open>nextServerName\<close> returns for the observed list, however many members are missing
  (a loop that runs without error makes \<open>target - i\<close> calls, all with that name). So
  the member calls of a cycle carry at most one distinct name, a name that no observed
  member has.
\<close>

theorem scale_up_reuses_one_name:
  assumes get: "envGet e ns n = Inr fetched"
    and ls: "envListServers e (clNamespace fetched) (clName fetched) = Inr members"
    and lp: "envListPods e (clNamespace fetched) (clName fetched) = Inr instances"
  shows "\<exists>r name. Reconcile e (ns, n) = Some r \<and>
     nextServerName fetched (findServer (sort_key srvName members)) = Some name \<and>
     name \<notin> srvName ` set members \<and>
     (\<forall>c\<in>set (resCalls r). isMemberCall c \<longrightarrow>
        (\<exists>srv res. c = CreateOrUpdateServer srv res \<and> srvName srv = name)) \<and>
     (\<exists>err made. scaleLoop e cluster (sort_key srvName members) target i calls =
                    Some (err, calls @ made) \<and>
        (\<forall>c\<in>set made. \<exists>srv res. c = CreateOrUpdateServer srv res \<and>
            Some (srvName srv) = nextServerName cluster (findServer (sort_key srvName members))) \<and>
        (err = None \<longrightarrow> length made = nat (target - i)))"
proof -
  let ?servers = "sort_key srvName members"
  let ?pods = "sort_key podName instances"
  let ?c = "projectStatus (UnsetFailed fetched) ?servers ?pods"
  note gs = getServers_ok[OF ls] and gp = getServerPods_ok[OF lp]
  from nextServerName_first_free[of ?servers fetched] obtain name where
    name: "nextServerName fetched (findServer ?servers) = Some name" by blast
  from nextServerName_unused[OF name] have fresh: "name \<notin> srvName ` set members" by simp
  have cycle: "\<exists>r. Reconcile e (ns, n) = Some r \<and>
     (\<forall>c\<in>set (resCalls r). isMemberCall c \<longrightarrow>
        (\<exists>srv res. c = CreateOrUpdateServer srv res \<and> srvName srv = name))"
  proof (cases "clStatus ?c = clStatus fetched")
    case False
    from Reconcile_changed[OF get gs gp False] False show ?thesis
      by (simp add: deferred_calls)
  next
    case True
    from Reconcile_unchanged_calls[OF get gs gp True] name obtain err mc pc where
      rec: "Reconcile e (ns, n) = Some \<lparr>resErr = err, resCalls = mc @ pc, resCluster = Some ?c\<rparr>"
      and mc: "\<forall>x\<in>set mc. \<exists>r. x = CreateOrUpdateServer
                 (serverApply ?c (serverShell ?c name) ?servers) r"
      and pc: "\<forall>x\<in>set pc. isPodCall x"
      by auto
    define r where "r = \<lparr>resErr = err, resCalls = mc @ pc, resCluster = Some ?c\<rparr>"
    have calls: "resCalls r = mc @ pc" by (simp add: r_def)
    have nm: "srvName (serverApply ?c (serverShell ?c name) ?servers) = name"
      by (simp add: serverApply_fields serverShell_def)
    have "\<forall>c\<in>set (resCalls r). isMemberCall c \<longrightarrow>
        (\<exists>srv res. c = CreateOrUpdateServer srv res \<and> srvName srv = name)"
      unfolding calls
    proof (intro ballI impI)
      fix c assume c: "c \<in> set (mc @ pc)" "isMemberCall c"
      from pc c(2) have "c \<notin> set pc" by (cases c) auto
      with c(1) mc obtain res where
        "c = CreateOrUpdateServer (serverApply ?c (serverShell ?c name) ?servers) res" by auto
      with nm show "\<exists>srv res. c = CreateOrUpdateServer srv res \<and> srvName srv = name" by blast
    qed
    moreover from rec have "Reconcile e (ns, n) = Some r" by (simp add: r_def)
    ultimately show ?thesis by blast
  qed
  from nextServerName_first_free[of ?servers cluster] obtain name' where
    name': "nextServerName cluster (findServer ?servers) = Some name'" by blast
  have nm': "srvName (serverApply cluster (serverShell cluster name') ?servers) = name'"
    by (simp add: serverApply_fields serverShell_def)
  from scaleLoop_calls[OF name', of e target i calls] obtain err made where
    sl: "scaleLoop e cluster ?servers target i calls = Some (err, calls @ made)"
    and made: "\<forall>x\<in>set made. \<exists>r. x = CreateOrUpdateServer
                 (serverApply cluster (serverShell cluster name') ?servers) r"
    and full: "err = None \<longrightarrow> length made = nat (target - i)"
    by blast
  from made nm' name' have made': "\<forall>c\<in>set made. \<exists>srv res. c = CreateOrUpdateServer srv res \<and>
            Some (srvName srv) = nextServerName cluster (findServer ?servers)"
    by auto
  from sl made' full have loop: "\<exists>err made. scaleLoop e cluster ?servers target i calls =
                    Some (err, calls @ made) \<and>
        (\<forall>c\<in>set made. \<exists>srv res. c = CreateOrUpdateServer srv res \<and>
            Some (srvName srv) = nextServerName cluster (findServer ?servers)) \<and>
        (err = None \<longrightarrow> length made = nat (target - i))" by blast
  from cycle obtain r where "Reconcile e (ns, n) = Some r"
     "\<forall>c\<in>set (resCalls r). isMemberCall c \<longrightarrow>
        (\<exists>srv res. c = CreateOrUpdateServer srv res \<and> srvName srv = name)" by blast
  with name fresh loop show ?thesis
    by (intro exI[of _ r] exI[of _ name] conjI)
qed

theorem scale_up_reuses_one_name_witness:
  "envGet (oneStore 3) ''ns'' ''c'' = Inr (clusterC 3 oneStatus) \<and>
   envListServers (oneStore 3) (clNamespace (clusterC 3 oneStatus))
     (clName (clusterC 3 oneStatus)) = Inr [firstMember] \<and>
   envListPods (oneStore 3) (clNamespace (clusterC 3 oneStatus))
     (clName (clusterC 3 oneStatus)) = Inr [pod ''c-0'' True] \<and>
   nextServerName (clusterC 3 oneStatus) (findServer [firstMember]) = Some ''c-1'' \<and>
   Reconcile (oneStore 3) (''ns'', ''c'') =
     Some \<lparr>resErr = None,
       resCalls =
         [CreateOrUpdateServer
            (serverApply (clusterC 3 oneStatus) (serverShell (clusterC 3 oneStatus) ''c-1'')
               [firstMember]) None,
          CreateOrUpdateServer
            (serverApply (clusterC 3 oneStatus) (serverShell (clusterC 3 oneStatus) ''c-1'')
               [firstMember]) None,
          CreateOrDeletePod (Some (pod ''c-0'' True)) firstMember (Inr ''updated'')],
       resCluster = Some (clusterC 3 oneStatus)\<rparr>"
proof -
  let ?c = "clusterC 3 oneStatus"
  let ?new = "serverApply ?c (serverShell ?c ''c-1'') [firstMember]"
  have g: "envGet (oneStore 3) ''ns'' ''c'' = Inr ?c" by (simp add: scenario_defs)
  have ls: "envListServers (oneStore 3) (clNamespace ?c) (clName ?c) = Inr [firstMember]"
    by (simp add: oneStore_def storeOf_def)
  have lp: "envListPods (oneStore 3) (clNamespace ?c) (clName ?c) = Inr [pod ''c-0'' True]"
    by (simp add: oneStore_def storeOf_def)
  have run: "Reconcile (oneStore 3) (''ns'', ''c'') =
     Some \<lparr>resErr = None,
       resCalls = [CreateOrUpdateServer ?new None, CreateOrUpdateServer ?new None,
          CreateOrDeletePod (Some (pod ''c-0'' True)) firstMember (Inr ''updated'')],
       resCluster = Some ?c\<rparr>"
    by (simp add: cycle_defs eval_defs scenario_defs)
  from scale_up_reuses_one_name[OF g ls lp] obtain r name where
    r: "Reconcile (oneStore 3) (''ns'', ''c'') = Some r"
    and name: "nextServerName ?c (findServer (sort_key srvName [firstMember])) = Some name"
    and same: "\<forall>c\<in>set (resCalls r). isMemberCall c \<longrightarrow>
        (\<exists>srv res. c = CreateOrUpdateServer srv res \<and> srvName srv = name)"
    by blast
  from r run have "CreateOrUpdateServer ?new None \<in> set (resCalls r)" by auto
  with same have "srvName ?new = name" by fastforce
  then have "name = ''c-1''" by (simp add: serverApply_fields serverShell_def)
  with name have nm: "nextServerName ?c (findServer [firstMember]) = Some ''c-1''" by simp
  from g ls lp nm run show ?thesis by simp
qed

end
